theory Spec2Isabelle
  imports Complex_Main "HOL-Library.Word"
begin

section \<open>Numbers, bytes and errors\<close>

text \<open>
  The TypeScript sources compute with JavaScript numbers. They are embedded as
  \<^typ>\<open>real\<close>: \<open>Math.pow x y\<close> with a positive base is \<open>x powr y\<close>, \<open>Math.pow x 2\<close>
  and \<open>Math.pow x 3\<close> are \<open>x\<^sup>2\<close> and \<open>x ^ 3\<close>, \<open>Math.sqrt\<close> is \<open>sqrt\<close>, and
  \<open>Math.round\<close> (round half up) is \<open>round\<close>, which is \<open>\<lfloor>x + 1/2\<rfloor>\<close>. The rounding error of
  IEEE doubles is not part of the embedding.

  The elements of a \<open>Uint8ClampedArray\<close> and of a \<open>Uint8Array\<close> are 8-bit words. A canvas
  \<open>ImageData\<close> holds four bytes (R, G, B, A) per pixel, row by row, so its \<open>data\<close> has
  length \<open>4 * width * height\<close> by construction.
\<close>

type_synonym byte = "8 word"

datatype error =
    TypeError
  | IndexSizeError
  | NoMetalDetected
  | EnhancementFailed

definition byteNum :: "byte \<Rightarrow> real" where
  "byteNum v = real (unat v)"

text \<open>Storing an integral number into a \<open>Uint8ClampedArray\<close> clamps it to \<open>[0, 255]\<close>.\<close>

definition toUint8Clamp :: "int \<Rightarrow> byte" where
  "toUint8Clamp v = word_of_int (max 0 (min 255 v))"

record ImageData =
  data :: "byte list"
  width :: nat
  height :: nat

definition wfImageData :: "ImageData \<Rightarrow> bool" where
  "wfImageData img \<longleftrightarrow> length (data img) = 4 * width img * height img"

section \<open>colorSpaceUtils.ts\<close>

record XyzColor =
  xyz_x :: real
  xyz_y :: real
  xyz_z :: real

record LabColor =
  lab_l :: real
  lab_a :: real
  lab_b :: real

record RgbColor =
  rgb_r :: int
  rgb_g :: int
  rgb_b :: int

text \<open>The local \<open>applyGamma\<close> of \<open>rgbToXyz\<close> (sRGB to linear RGB).\<close>

definition rgbToXyz_applyGamma :: "real \<Rightarrow> real" where
  "rgbToXyz_applyGamma v =
     (if v > 0.04045 then ((v + 0.055) / 1.055) powr 2.4 else v / 12.92)"

definition rgbToXyz :: "real \<Rightarrow> real \<Rightarrow> real \<Rightarrow> XyzColor" where
  "rgbToXyz r g b =
     (let rNorm = rgbToXyz_applyGamma (r / 255) * 100;
          gNorm = rgbToXyz_applyGamma (g / 255) * 100;
          bNorm = rgbToXyz_applyGamma (b / 255) * 100
      in \<lparr> xyz_x = rNorm * 0.4124 + gNorm * 0.3576 + bNorm * 0.1805,
           xyz_y = rNorm * 0.2126 + gNorm * 0.7152 + bNorm * 0.0722,
           xyz_z = rNorm * 0.0193 + gNorm * 0.1192 + bNorm * 0.9505 \<rparr>)"

text \<open>The local \<open>applyTransform\<close> of \<open>xyzToLab\<close>.\<close>

definition applyTransform :: "real \<Rightarrow> real" where
  "applyTransform v =
     (if v > 0.008856 then v powr (1 / 3) else 7.787 * v + 16 / 116)"

definition xyzToLab :: "real \<Rightarrow> real \<Rightarrow> real \<Rightarrow> LabColor" where
  "xyzToLab x y z =
     (let xNorm = applyTransform (x / 95.047);
          yNorm = applyTransform (y / 100.0);
          zNorm = applyTransform (z / 108.883)
      in \<lparr> lab_l = 116 * yNorm - 16,
           lab_a = 500 * (xNorm - yNorm),
           lab_b = 200 * (yNorm - zNorm) \<rparr>)"

definition rgbToLab :: "real \<Rightarrow> real \<Rightarrow> real \<Rightarrow> LabColor" where
  "rgbToLab r g b = (let xyz = rgbToXyz r g b in xyzToLab (xyz_x xyz) (xyz_y xyz) (xyz_z xyz))"

text \<open>The local \<open>applyInverseTransform\<close> of \<open>labToXyz\<close>.\<close>

definition applyInverseTransform :: "real \<Rightarrow> real" where
  "applyInverseTransform v =
     (let pow3 = v ^ 3 in if pow3 > 0.008856 then pow3 else (v - 16 / 116) / 7.787)"

definition labToXyz :: "real \<Rightarrow> real \<Rightarrow> real \<Rightarrow> XyzColor" where
  "labToXyz l a b =
     (let y = (l + 16) / 116;
          x = a / 500 + y;
          z = y - b / 200
      in \<lparr> xyz_x = 95.047 * applyInverseTransform x,
           xyz_y = 100.0 * applyInverseTransform y,
           xyz_z = 108.883 * applyInverseTransform z \<rparr>)"

text \<open>The local \<open>applyGamma\<close> of \<open>xyzToRgb\<close> (linear RGB to sRGB).\<close>

definition xyzToRgb_applyGamma :: "real \<Rightarrow> real" where
  "xyzToRgb_applyGamma v =
     (if v > 0.0031308 then 1.055 * v powr (1 / 2.4) - 0.055 else 12.92 * v)"

definition clamp01 :: "real \<Rightarrow> real" where
  "clamp01 v = max 0 (min 1 v)"

definition xyzToRgb :: "real \<Rightarrow> real \<Rightarrow> real \<Rightarrow> RgbColor" where
  "xyzToRgb x0 y0 z0 =
     (let x = x0 / 100; y = y0 / 100; z = z0 / 100;
          r = clamp01 (xyzToRgb_applyGamma (x * 3.2406 + y * (- 1.5372) + z * (- 0.4986)));
          g = clamp01 (xyzToRgb_applyGamma (x * (- 0.9689) + y * 1.8758 + z * 0.0415));
          b = clamp01 (xyzToRgb_applyGamma (x * 0.0557 + y * (- 0.2040) + z * 1.0570))
      in \<lparr> rgb_r = round (r * 255), rgb_g = round (g * 255), rgb_b = round (b * 255) \<rparr>)"

definition labToRgb :: "real \<Rightarrow> real \<Rightarrow> real \<Rightarrow> RgbColor" where
  "labToRgb l a b = (let xyz = labToXyz l a b in xyzToRgb (xyz_x xyz) (xyz_y xyz) (xyz_z xyz))"

section \<open>colorConverter.ts: anchor interpolation\<close>

datatype MetalColor = Yellow | Rose

record ColorReference =
  source :: LabColor
  target :: LabColor

definition mkLab :: "real \<Rightarrow> real \<Rightarrow> real \<Rightarrow> LabColor" where
  "mkLab l a b = \<lparr> lab_l = l, lab_a = a, lab_b = b \<rparr>"

definition YELLOW_TO_ROSE_REFS :: "ColorReference list" where
  "YELLOW_TO_ROSE_REFS =
     [ \<lparr> source = mkLab 83 10 45, target = mkLab 80 20 25 \<rparr>,
       \<lparr> source = mkLab 76 7 40,  target = mkLab 70 18 22 \<rparr>,
       \<lparr> source = mkLab 65 6 35,  target = mkLab 60 16 18 \<rparr> ]"

definition ROSE_TO_YELLOW_REFS :: "ColorReference list" where
  "ROSE_TO_YELLOW_REFS =
     [ \<lparr> source = mkLab 80 20 25, target = mkLab 83 10 45 \<rparr>,
       \<lparr> source = mkLab 70 18 22, target = mkLab 76 7 40 \<rparr>,
       \<lparr> source = mkLab 60 16 18, target = mkLab 65 6 35 \<rparr> ]"

definition labDistance :: "LabColor \<Rightarrow> LabColor \<Rightarrow> real" where
  "labDistance lab1 lab2 =
     sqrt ((lab_l lab1 - lab_l lab2)\<^sup>2 + (lab_a lab1 - lab_a lab2)\<^sup>2 + (lab_b lab1 - lab_b lab2)\<^sup>2)"

text \<open>
  \<open>transformLabColor\<close>. \<open>references[0].target\<close> on an empty array raises a \<open>TypeError\<close>;
  \<open>reduce\<close> with the initial value \<open>0\<close> is a left fold.
\<close>

definition transformLabColor :: "LabColor \<Rightarrow> ColorReference list \<Rightarrow> real \<Rightarrow> error + LabColor" where
  "transformLabColor lab references reflectionStrength =
     (let distances = map (\<lambda>ref. labDistance lab (source ref)) references;
          totalDistance = foldl (+) 0 distances
      in if totalDistance = 0 then
           (case references of [] \<Rightarrow> Inl TypeError | ref0 # _ \<Rightarrow> Inr (target ref0))
         else
           (let weights = map (\<lambda>d. 1 / (d + 0.0001)) distances;
                weightSum = foldl (+) 0 weights;
                targetL = foldl (\<lambda>acc i. acc + lab_l (target (references ! i)) * (weights ! i / weightSum))
                            0 [0..<length references];
                targetA = foldl (\<lambda>acc i. acc + lab_a (target (references ! i)) * (weights ! i / weightSum))
                            0 [0..<length references];
                targetB = foldl (\<lambda>acc i. acc + lab_b (target (references ! i)) * (weights ! i / weightSum))
                            0 [0..<length references];
                targetL' = (if reflectionStrength > 0
                            then (let preservationFactor = reflectionStrength / 255
                                  in lab_l lab * preservationFactor + targetL * (1 - preservationFactor))
                            else targetL)
            in Inr \<lparr> lab_l = targetL', lab_a = targetA, lab_b = targetB \<rparr>))"

definition colorRefs :: "MetalColor \<Rightarrow> MetalColor \<Rightarrow> ColorReference list" where
  "colorRefs sourceColor targetColor =
     (if sourceColor = Yellow \<and> targetColor = Rose then YELLOW_TO_ROSE_REFS else ROSE_TO_YELLOW_REFS)"

text \<open>
  The body of the pixel loop of \<open>transformMetalColor\<close> for a masked pixel: the colour that
  is written back. A read of \<open>reflectionMap\<close> past its end is \<open>undefined\<close>, for which
  \<open>reflectionStrength > 0\<close> is false, as for \<open>0\<close>.
\<close>

definition transformedPixel ::
  "ColorReference list \<Rightarrow> byte list \<Rightarrow> byte list \<Rightarrow> nat \<Rightarrow> error + RgbColor" where
  "transformedPixel refs reflectionMap dat i =
     (let pixelIndex = i div 4;
          r = byteNum (dat ! i);
          g = byteNum (dat ! (i + 1));
          b = byteNum (dat ! (i + 2));
          lab = rgbToLab r g b;
          reflectionStrength =
            (if pixelIndex < length reflectionMap then byteNum (reflectionMap ! pixelIndex) else 0)
      in case transformLabColor lab refs reflectionStrength of
           Inl e \<Rightarrow> Inl e
         | Inr transformedLab \<Rightarrow>
             Inr (labToRgb (lab_l transformedLab) (lab_a transformedLab) (lab_b transformedLab)))"

definition maskSet :: "byte list \<Rightarrow> nat \<Rightarrow> bool" where
  "maskSet metalMask pixelIndex \<longleftrightarrow> pixelIndex < length metalMask \<and> metalMask ! pixelIndex > 0"

text \<open>The loop \<open>for (let i = 0; i < data.length; i += 4)\<close>, writing into \<open>data\<close> in place.\<close>

function transformPixels ::
  "ColorReference list \<Rightarrow> byte list \<Rightarrow> byte list \<Rightarrow> nat \<Rightarrow> byte list \<Rightarrow> error + byte list" where
  "transformPixels refs metalMask reflectionMap i dat =
     (if i < length dat then
        (if maskSet metalMask (i div 4) then
           (case transformedPixel refs reflectionMap dat i of
              Inl e \<Rightarrow> Inl e
            | Inr transformedRgb \<Rightarrow>
                transformPixels refs metalMask reflectionMap (i + 4)
                  (dat[i := toUint8Clamp (rgb_r transformedRgb),
                       i + 1 := toUint8Clamp (rgb_g transformedRgb),
                       i + 2 := toUint8Clamp (rgb_b transformedRgb)]))
         else transformPixels refs metalMask reflectionMap (i + 4) dat)
      else Inr dat)"
  by pat_completeness auto
termination
  by (relation "measure (\<lambda>(refs, metalMask, reflectionMap, i, dat). length dat - i)") auto

declare transformPixels.simps [simp del]

definition transformMetalColor ::
  "byte list \<Rightarrow> MetalColor \<Rightarrow> MetalColor \<Rightarrow> byte list \<Rightarrow> byte list \<Rightarrow> error + byte list" where
  "transformMetalColor dat sourceColor targetColor metalMask reflectionMap =
     transformPixels (colorRefs sourceColor targetColor) metalMask reflectionMap 0 dat"

section \<open>metalDetector.ts: clustering, classification, reflections\<close>

definition YELLOW_GOLD_LAB_REFS :: "LabColor list" where
  "YELLOW_GOLD_LAB_REFS = [mkLab 83 10 45, mkLab 76 7 40, mkLab 70 6 35]"

definition ROSE_GOLD_LAB_REFS :: "LabColor list" where
  "ROSE_GOLD_LAB_REFS = [mkLab 75 20 25, mkLab 68 18 20, mkLab 60 16 18]"

record Cluster =
  center :: LabColor
  points :: "(LabColor \<times> nat) list"

text \<open>
  The initial centres of \<open>kMeansLabClustering\<close>: \<open>labColors[i * step]\<close> for \<open>i < k\<close> with
  \<open>step = Math.floor(labColors.length / k)\<close>. The only call passes \<open>k = 6\<close> and the colours
  of a non-empty image, so every index is in range.
\<close>

definition initialCenters :: "LabColor list \<Rightarrow> nat \<Rightarrow> LabColor list" where
  "initialCenters labColors k =
     (let step = length labColors div k in map (\<lambda>i. labColors ! (i * step)) [0..<k])"

text \<open>
  The inner \<open>clusters.forEach\<close> that finds the nearest centre. \<open>minDistance\<close> starts at
  \<open>Infinity\<close>, written \<open>None\<close>; the comparison is strict, so the first nearest centre wins.
\<close>

definition nearestClusterIndex :: "Cluster list \<Rightarrow> LabColor \<Rightarrow> nat" where
  "nearestClusterIndex clusters lab =
     snd (fold (\<lambda>i (minDistance, nearest).
                  let distance = labDistance lab (center (clusters ! i))
                  in if (case minDistance of None \<Rightarrow> True | Some m \<Rightarrow> distance < m)
                     then (Some distance, i) else (minDistance, nearest))
               [0..<length clusters] (None, 0))"

definition assignPoints :: "LabColor list \<Rightarrow> Cluster list \<Rightarrow> Cluster list" where
  "assignPoints labColors clusters =
     fold (\<lambda>index cs.
             let lab = labColors ! index;
                 n = nearestClusterIndex cs lab
             in cs[n := (cs ! n)\<lparr> points := points (cs ! n) @ [(lab, index)] \<rparr>])
          [0..<length labColors]
          (map (\<lambda>cluster. cluster\<lparr> points := [] \<rparr>) clusters)"

definition updateCenter :: "Cluster \<Rightarrow> Cluster" where
  "updateCenter cluster =
     (if length (points cluster) = 0 then cluster
      else
        (let newL = foldl (\<lambda>acc point. acc + lab_l (fst point)) 0 (points cluster);
             newA = foldl (\<lambda>acc point. acc + lab_a (fst point)) 0 (points cluster);
             newB = foldl (\<lambda>acc point. acc + lab_b (fst point)) 0 (points cluster);
             n = real (length (points cluster))
         in cluster\<lparr> center := \<lparr> lab_l = newL / n, lab_a = newA / n, lab_b = newB / n \<rparr> \<rparr>))"

text \<open>One round of the \<open>for (iteration ...)\<close> loop.\<close>

definition kMeansRound :: "LabColor list \<Rightarrow> Cluster list \<Rightarrow> Cluster list" where
  "kMeansRound labColors clusters = map updateCenter (assignPoints labColors clusters)"

primrec kMeansIterate :: "nat \<Rightarrow> LabColor list \<Rightarrow> Cluster list \<Rightarrow> Cluster list" where
  "kMeansIterate 0 labColors clusters = clusters"
| "kMeansIterate (Suc n) labColors clusters = kMeansIterate n labColors (kMeansRound labColors clusters)"

definition kMeansLabClustering :: "LabColor list \<Rightarrow> nat \<Rightarrow> nat \<Rightarrow> Cluster list" where
  "kMeansLabClustering labColors k maxIterations =
     kMeansIterate maxIterations labColors
       (map (\<lambda>c. \<lparr> center = c, points = [] \<rparr>) (initialCenters labColors k))"

datatype MetalType = Metal MetalColor | NonMetal

record Classification =
  ctype :: MetalType
  confidence :: real

text \<open>
  The running minimum \<open>Math.min(min, dist)\<close> over a reference table, started at
  \<open>Infinity\<close> (\<open>None\<close>).
\<close>

definition minRefDistance :: "LabColor \<Rightarrow> LabColor list \<Rightarrow> real option" where
  "minRefDistance c refs =
     fold (\<lambda>ref m. let dist = labDistance c ref
                    in (case m of None \<Rightarrow> Some dist | Some v \<Rightarrow> Some (min v dist)))
          refs None"

text \<open>
  \<open>classifyCluster\<close>. With both tables non-empty the two minima are finite; the other
  cases compute with \<open>Infinity\<close> as JavaScript does (\<open>Infinity > 30\<close>, \<open>x / Infinity = 0\<close>).
\<close>

definition classifyCluster :: "Cluster \<Rightarrow> Classification" where
  "classifyCluster cluster =
     (case (minRefDistance (center cluster) YELLOW_GOLD_LAB_REFS,
            minRefDistance (center cluster) ROSE_GOLD_LAB_REFS) of
        (Some minYellowDist, Some minRoseDist) \<Rightarrow>
          if minYellowDist > 30 \<and> minRoseDist > 30 then \<lparr> ctype = NonMetal, confidence = 0.9 \<rparr>
          else
            (let totalDist = minYellowDist + minRoseDist
             in \<lparr> ctype = Metal (if minYellowDist < minRoseDist then Yellow else Rose),
                  confidence = 1 - min minYellowDist minRoseDist / totalDist \<rparr>)
      | (Some minYellowDist, None) \<Rightarrow>
          if minYellowDist > 30 then \<lparr> ctype = NonMetal, confidence = 0.9 \<rparr>
          else \<lparr> ctype = Metal Yellow, confidence = 1 \<rparr>
      | (None, Some minRoseDist) \<Rightarrow>
          if minRoseDist > 30 then \<lparr> ctype = NonMetal, confidence = 0.9 \<rparr>
          else \<lparr> ctype = Metal Rose, confidence = 1 \<rparr>
      | (None, None) \<Rightarrow> \<lparr> ctype = NonMetal, confidence = 0.9 \<rparr>)"

text \<open>The four-level highlight strength of \<open>detectReflections\<close>.\<close>

definition highlightLevel :: "real \<Rightarrow> byte" where
  "highlightLevel luminance =
     (if luminance > 200 then 255
      else if luminance > 170 then 200
      else if luminance > 140 then 150
      else 0)"

definition detectReflections :: "byte list \<Rightarrow> nat \<Rightarrow> nat \<Rightarrow> byte list \<Rightarrow> byte list" where
  "detectReflections imageData w h metalMask =
     fold (\<lambda>i reflectionMap.
        fold (\<lambda>j reflectionMap.
           let idx = (i * w + j) * 4;
               pixelIndex = i * w + j
           in if maskSet metalMask pixelIndex then
                (let r = byteNum (imageData ! idx);
                     g = byteNum (imageData ! (idx + 1));
                     b = byteNum (imageData ! (idx + 2));
                     luminance = 0.299 * r + 0.587 * g + 0.114 * b
                 in reflectionMap[pixelIndex := highlightLevel luminance])
              else reflectionMap)
          [0..<w] reflectionMap)
       [0..<h] (replicate (w * h) 0)"

record DetectionResult =
  detectedColor :: MetalColor
  metalMask :: "byte list"
  reflectionMap :: "byte list"
  labValues :: "LabColor list"

text \<open>The clusters kept by the \<open>filter\<close> of \<open>detectMetalType\<close>.\<close>

definition isMetalCluster :: "Cluster \<Rightarrow> bool" where
  "isMetalCluster c \<longleftrightarrow>
     ctype (classifyCluster c) \<noteq> NonMetal \<and> confidence (classifyCluster c) > 0.5"

text \<open>
  \<open>Array.prototype.sort\<close> is stable; the comparator \<open>b.points.length - a.points.length\<close>
  orders by size, largest first.
\<close>

definition metalClusters :: "Cluster list \<Rightarrow> Cluster list" where
  "metalClusters clusters =
     sort_key (\<lambda>c. - int (length (points c))) (filter isMetalCluster clusters)"

definition markMetal :: "nat \<Rightarrow> Cluster list \<Rightarrow> byte list" where
  "markMetal n clusters =
     fold (\<lambda>cluster mask. fold (\<lambda>point mask. mask[snd point := 255]) (points cluster) mask)
          clusters (replicate n 0)"

text \<open>
  \<open>detectMetalType\<close> from the decoded \<open>ImageData\<close> on. \<open>getImageData\<close> raises an
  \<open>IndexSizeError\<close> for an empty canvas, so the pixel list is never empty. The pixel loop
  \<open>for (let i = 0; i < data.length; i += 4)\<close> runs once per pixel.
\<close>

definition labColorsOf :: "byte list \<Rightarrow> LabColor list" where
  "labColorsOf dat =
     map (\<lambda>p. rgbToLab (byteNum (dat ! (4 * p))) (byteNum (dat ! (4 * p + 1))) (byteNum (dat ! (4 * p + 2))))
         [0..<(length dat + 3) div 4]"

definition detectMetalType :: "ImageData \<Rightarrow> error + DetectionResult" where
  "detectMetalType imageData =
     (if width imageData = 0 \<or> height imageData = 0 then Inl IndexSizeError
      else
        (let dat = data imageData; w = width imageData; h = height imageData;
             labColors = labColorsOf dat;
             clusters = kMeansLabClustering labColors 6 10;
             mcs = metalClusters clusters
         in case mcs of
              [] \<Rightarrow> Inl NoMetalDetected
            | dominantCluster # _ \<Rightarrow>
                (let mask = markMetal (w * h) mcs
                 in Inr \<lparr> detectedColor =
                            (case ctype (classifyCluster dominantCluster) of
                               Metal c \<Rightarrow> c | NonMetal \<Rightarrow> Rose),
                          metalMask = mask,
                          reflectionMap = detectReflections dat w h mask,
                          labValues = map fst (points dominantCluster) \<rparr>)))"

section \<open>imageEnhancer.ts\<close>

text \<open>
  \<open>isArtifact\<close>: the mean colour distance to the 4-connected neighbours that lie inside
  the buffer, compared with 40.
\<close>

definition colorDist :: "byte list \<Rightarrow> nat \<Rightarrow> nat \<Rightarrow> real" where
  "colorDist dat idx neighborIdx =
     sqrt ((byteNum (dat ! idx) - byteNum (dat ! neighborIdx))\<^sup>2 +
           (byteNum (dat ! (idx + 1)) - byteNum (dat ! (neighborIdx + 1)))\<^sup>2 +
           (byteNum (dat ! (idx + 2)) - byteNum (dat ! (neighborIdx + 2)))\<^sup>2)"

definition isArtifact :: "byte list \<Rightarrow> nat \<Rightarrow> nat \<Rightarrow> bool" where
  "isArtifact dat idx w =
     (let neighbors = [int idx - int w * 4, int idx + int w * 4, int idx - 4, int idx + 4];
          (variance, neighborCount) =
             fold (\<lambda>neighborIdx (variance, neighborCount).
                     if neighborIdx \<ge> 0 \<and> neighborIdx < int (length dat)
                     then (variance + colorDist dat idx (nat neighborIdx), neighborCount + 1)
                     else (variance, neighborCount))
                  neighbors (0, 0 :: nat);
          variance' = (if neighborCount > 0 then variance / real neighborCount else 0)
      in variance' > 40)"

text \<open>The nine samples of channel \<open>c\<close> around \<open>(x, y)\<close>, in the order they are pushed.\<close>

definition neighborhood :: "byte list \<Rightarrow> nat \<Rightarrow> nat \<Rightarrow> nat \<Rightarrow> nat \<Rightarrow> byte list" where
  "neighborhood dat w x y c =
     concat (map (\<lambda>dy. map (\<lambda>dx. dat ! nat (((int y + dy) * int w + (int x + dx)) * 4 + int c))
                           [- 1, 0, 1])
                 [- 1, 0, 1])"

definition removeArtifacts :: "ImageData \<Rightarrow> ImageData" where
  "removeArtifacts imageData =
     (let dat = data imageData; w = width imageData; h = height imageData;
          output =
            fold (\<lambda>y output.
               fold (\<lambda>x output.
                  let idx = (y * w + x) * 4
                  in if isArtifact dat idx w then
                       fold (\<lambda>c output. output[idx + c := sort (neighborhood dat w x y c) ! 4])
                            [0..<3] output
                     else output)
                 [1..<w - 1] output)
              [1..<h - 1] dat
      in \<lparr> data = output, width = w, height = h \<rparr>)"

text \<open>The value written by \<open>enhanceImageStandard\<close> for channel \<open>c\<close> of the pixel \<open>(x, y)\<close>.\<close>

definition sharpened :: "byte list \<Rightarrow> nat \<Rightarrow> nat \<Rightarrow> nat \<Rightarrow> nat \<Rightarrow> byte" where
  "sharpened dat w x y c =
     (let centerValue = byteNum (dat ! ((y * w + x) * 4 + c));
          sum = - byteNum (dat ! (((y - 1) * w + x) * 4 + c))
                + - byteNum (dat ! ((y * w + (x - 1)) * 4 + c))
                + 4 * centerValue
                + - byteNum (dat ! ((y * w + (x + 1)) * 4 + c))
                + - byteNum (dat ! (((y + 1) * w + x) * 4 + c));
          v = centerValue + sum * 0.3
      in toUint8Clamp (max 0 (min 255 (round v))))"

definition enhanceImageStandard :: "ImageData \<Rightarrow> ImageData" where
  "enhanceImageStandard imageData =
     (let dat = data imageData; w = width imageData; h = height imageData;
          output =
            fold (\<lambda>y output.
               fold (\<lambda>x output.
                  let idx = (y * w + x) * 4
                  in fold (\<lambda>c output. output[idx + c := sharpened dat w x y c]) [0..<3] output)
                 [1..<w - 1] output)
              [1..<h - 1] dat
      in \<lparr> data = output, width = w, height = h \<rparr>)"

text \<open>
  \<open>applySuperResolution\<close>. The body of its \<open>try\<close> block (tensor conversion, model load,
  prediction, conversion back) is the external enhancement model; it is a parameter that
  either returns an image or fails. Every failure is caught.
\<close>

type_synonym enhancer = "ImageData \<Rightarrow> error + ImageData"

definition applySuperResolution :: "enhancer \<Rightarrow> ImageData \<Rightarrow> ImageData" where
  "applySuperResolution model imageData =
     (case model imageData of
        Inr result \<Rightarrow> result
      | Inl e \<Rightarrow> enhanceImageStandard imageData)"

text \<open>\<open>enhanceImage\<close> between decoding and encoding.\<close>

definition enhanceImage :: "enhancer \<Rightarrow> ImageData \<Rightarrow> ImageData" where
  "enhanceImage model imageData = applySuperResolution model (removeArtifacts imageData)"

section \<open>imageProcessing.ts: the direct HSV remap\<close>











section \<open>Auxiliary notions for the proofs\<close>

text \<open>
  The loops of \<open>removeArtifacts\<close> and \<open>enhanceImageStandard\<close> have one shape: for every
  interior pixel that satisfies a condition, the three colour channels are overwritten
  with values that depend on the input buffer only.
\<close>

definition interiorLoop ::
  "nat \<Rightarrow> nat \<Rightarrow> (nat \<Rightarrow> nat \<Rightarrow> bool) \<Rightarrow> (nat \<Rightarrow> nat \<Rightarrow> nat \<Rightarrow> byte) \<Rightarrow> byte list \<Rightarrow> byte list" where
  "interiorLoop w h cond val out0 =
     fold (\<lambda>y output.
        fold (\<lambda>x output.
           if cond x y then
             fold (\<lambda>c output. output[(y * w + x) * 4 + c := val x y c]) [0..<3] output
           else output)
          [1..<w - 1] output)
       [1..<h - 1] out0"

text \<open>The pixel \<open>(x, y)\<close> is interior: the loops \<open>1 \<le> y < height - 1\<close>, \<open>1 \<le> x < width - 1\<close>.\<close>

definition interior :: "nat \<Rightarrow> nat \<Rightarrow> nat \<Rightarrow> nat \<Rightarrow> bool" where
  "interior w h x y \<longleftrightarrow> 1 \<le> x \<and> x < w - 1 \<and> 1 \<le> y \<and> y < h - 1"

text \<open>
  A 3x3 image for the artifact scenario: eight pixels \<open>(10, 10, 10, 255)\<close> around the
  outlier \<open>(200, 200, 200, 255)\<close>.
\<close>

definition speckle3x3 :: ImageData where
  "speckle3x3 =
     \<lparr> data = [10, 10, 10, 255,  10, 10, 10, 255,  10, 10, 10, 255,
                10, 10, 10, 255,  200, 200, 200, 255,  10, 10, 10, 255,
                10, 10, 10, 255,  10, 10, 10, 255,  10, 10, 10, 255],
       width = 3, height = 3 \<rparr>"

text \<open>The two minima of \<open>classifyCluster\<close> over the constant reference tables.\<close>

definition yellowDistance :: "LabColor \<Rightarrow> real" where
  "yellowDistance c =
     min (min (labDistance c (mkLab 83 10 45)) (labDistance c (mkLab 76 7 40)))
         (labDistance c (mkLab 70 6 35))"

definition roseDistance :: "LabColor \<Rightarrow> real" where
  "roseDistance c =
     min (min (labDistance c (mkLab 75 20 25)) (labDistance c (mkLab 68 18 20)))
         (labDistance c (mkLab 60 16 18))"

text \<open>One-pixel images: mid-gray, white, and a bright yellow gold.\<close>

definition grayPixel :: ImageData where
  "grayPixel = \<lparr> data = [128, 128, 128, 255], width = 1, height = 1 \<rparr>"

definition whitePixel :: ImageData where
  "whitePixel = \<lparr> data = [255, 255, 255, 255], width = 1, height = 1 \<rparr>"

definition goldPixel :: ImageData where
  "goldPixel = \<lparr> data = [255, 200, 120, 255], width = 1, height = 1 \<rparr>"





section \<open>Properties\<close>

subsection \<open>Index arithmetic and folds\<close>

lemma quad_channel:
  fixes p c :: nat
  assumes "c < 4"
  shows "(4 * p + c) div 4 = p" and "(4 * p + c) mod 4 = c"
  using assms by simp_all

lemma quad_offsets:
  fixes i j :: nat
  assumes "i mod 4 = 0" and "j = i \<or> j = i + 1 \<or> j = i + 2"
  shows "j div 4 = i div 4 \<and> j mod 4 \<noteq> 3 \<and> \<not> j < i"
proof -
  from assms(1) have "4 dvd i" by (simp add: mod_eq_0_iff_dvd)
  then obtain q where q: "i = 4 * q" by (rule dvdE)
  from assms(2) consider "j = 4 * q + 0" | "j = 4 * q + 1" | "j = 4 * q + 2"
    unfolding q by auto
  then show ?thesis
  proof cases
    case 1
    then show ?thesis using quad_channel [of 0 q] q by simp
  next
    case 2
    then show ?thesis using quad_channel [of 1 q] q by simp
  next
    case 3
    then show ?thesis using quad_channel [of 2 q] q by simp
  qed
qed

lemma fold_invariant:
  assumes "P s" and "\<And>x s. x \<in> set xs \<Longrightarrow> P s \<Longrightarrow> P (f x s)"
  shows "P (fold f xs s)"
  using assms by (induction xs arbitrary: s) auto

lemma upt_0_3: "[0..<3] = [0, 1, 2]"
  by (simp add: numeral_3_eq_3)

lemma upt_0_6: "[0..<6] = [0, 1, 2, 3, 4, 5]"
  by (simp add: upt_rec)

subsection \<open>colorSpaceUtils.ts: the Lab round trip\<close>

lemma root_of_power:
  fixes x :: real and m :: nat
  assumes "0 \<le> x" and "0 < m"
  shows "(x ^ m) powr (1 / real m) = x"
proof (cases "x = 0")
  case True
  then show ?thesis using assms(2) by simp
next
  case False
  then have x: "0 < x" using assms(1) by simp
  have "(x ^ m) powr (1 / real m) = (x powr real m) powr (1 / real m)"
    using x by (simp add: powr_realpow)
  also have "\<dots> = x powr (real m * (1 / real m))" by (simp add: powr_powr)
  also have "\<dots> = x" using x assms(2) by simp
  finally show ?thesis .
qed

lemma powr_frac:
  fixes u :: real and n m :: nat
  assumes "0 < u" and "0 < m"
  shows "u powr (real n / real m) = (u ^ n) powr (1 / real m)"
proof -
  have "(u ^ n) powr (1 / real m) = (u powr real n) powr (1 / real m)"
    using assms(1) by (simp add: powr_realpow)
  also have "\<dots> = u powr (real n * (1 / real m))" by (simp add: powr_powr)
  finally show ?thesis by simp
qed

lemma powr_frac_lower:
  fixes u lo :: real and n m :: nat
  assumes "0 < u" and "0 < m" and "0 \<le> lo" and "lo ^ m \<le> u ^ n"
  shows "lo \<le> u powr (real n / real m)"
proof -
  have "lo = (lo ^ m) powr (1 / real m)" using root_of_power [OF assms(3,2)] by simp
  also have "\<dots> \<le> (u ^ n) powr (1 / real m)"
    using assms(3,4) by (intro powr_mono2) simp_all
  finally show ?thesis using powr_frac [OF assms(1,2)] by simp
qed

lemma powr_frac_upper:
  fixes u hi :: real and n m :: nat
  assumes "0 < u" and "0 < m" and "0 \<le> hi" and "u ^ n \<le> hi ^ m"
  shows "u powr (real n / real m) \<le> hi"
proof -
  have "(u ^ n) powr (1 / real m) \<le> (hi ^ m) powr (1 / real m)"
    using assms(1,4) by (intro powr_mono2) simp_all
  also have "\<dots> = hi" using root_of_power [OF assms(3,2)] .
  finally show ?thesis using powr_frac [OF assms(1,2)] by simp
qed

lemma gamma_bounds:
  assumes "0.04045 < v" and "0 \<le> lo" and "lo ^ 5 \<le> ((v + 0.055) / 1.055) ^ 12"
    and "((v + 0.055) / 1.055) ^ 12 \<le> hi ^ 5" and "0 \<le> hi"
  shows "lo \<le> rgbToXyz_applyGamma v" and "rgbToXyz_applyGamma v \<le> hi"
proof -
  have u: "0 < (v + 0.055) / 1.055" using assms(1) by simp
  have e: "(2.4 :: real) = real 12 / real 5" by simp
  have g: "rgbToXyz_applyGamma v = ((v + 0.055) / 1.055) powr (real 12 / real 5)"
    using assms(1) by (simp add: rgbToXyz_applyGamma_def)
  show "lo \<le> rgbToXyz_applyGamma v"
    unfolding g using powr_frac_lower [OF u _ assms(2), of 5 12] assms(3) by simp
  show "rgbToXyz_applyGamma v \<le> hi"
    unfolding g using powr_frac_upper [OF u _ assms(5), of 5 12] assms(4) by simp
qed

lemma cbrt_bounds:
  assumes "0.008856 < v" and "0 \<le> lo" and "lo ^ 3 \<le> v" and "v \<le> hi ^ 3" and "0 \<le> hi"
  shows "lo \<le> applyTransform v" and "applyTransform v \<le> hi"
proof -
  have v: "0 < v" using assms(1) by simp
  have g: "applyTransform v = v powr (real 1 / real 3)"
    using assms(1) by (simp add: applyTransform_def)
  show "lo \<le> applyTransform v"
    unfolding g using powr_frac_lower [OF v _ assms(2), of 3 1] assms(3) by simp
  show "applyTransform v \<le> hi"
    unfolding g using powr_frac_upper [OF v _ assms(5), of 3 1] assms(4) by simp
qed

lemma applyInverseTransform_applyTransform:
  assumes "0 \<le> v"
  shows "applyInverseTransform (applyTransform v) = v"
proof (cases "v > 0.008856")
  case True
  then have v: "0 < v" by simp
  have "(v powr (1 / 3)) powr 3 = v powr (1 / 3 * 3)" by (rule powr_powr)
  then have c: "(v powr (1 / 3)) ^ 3 = v" using v by simp
  show ?thesis using True by (simp add: applyTransform_def applyInverseTransform_def Let_def c)
next
  case False
  let ?t = "7.787 * v + 16 / 116"
  have t: "0 \<le> ?t" "?t \<le> 7.787 * 0.008856 + 16 / 116" using assms False by simp_all
  have "?t ^ 3 \<le> (7.787 * 0.008856 + 16 / 116) ^ 3" by (rule power_mono [OF t(2,1)])
  also have "\<dots> \<le> (0.008856 :: real)" by (simp add: power_divide)
  finally have small: "\<not> ?t ^ 3 > 0.008856" by simp
  show ?thesis using False small by (simp add: applyTransform_def applyInverseTransform_def Let_def)
qed

lemma labToXyz_xyzToLab:
  assumes "0 \<le> x" and "0 \<le> y" and "0 \<le> z"
  shows "labToXyz (lab_l (xyzToLab x y z)) (lab_a (xyzToLab x y z)) (lab_b (xyzToLab x y z))
           = \<lparr> xyz_x = x, xyz_y = y, xyz_z = z \<rparr>"
proof -
  have x: "applyInverseTransform (applyTransform (x / 95.047)) = x / 95.047"
    using assms(1) by (intro applyInverseTransform_applyTransform) simp
  have y: "applyInverseTransform (applyTransform (y / 100.0)) = y / 100.0"
    using assms(2) by (intro applyInverseTransform_applyTransform) simp
  have z: "applyInverseTransform (applyTransform (z / 108.883)) = z / 108.883"
    using assms(3) by (intro applyInverseTransform_applyTransform) simp
  have l: "(116 * fy - 16 + 16) / 116 = fy" for fy :: real by simp
  have a: "500 * (fx - fy) / 500 + fy = fx" for fx fy :: real by (simp add: field_simps)
  have b: "fy - 200 * (fy - fz) / 200 = fz" for fy fz :: real by (simp add: field_simps)
  show ?thesis
    unfolding labToXyz_def xyzToLab_def Let_def LabColor.select_convs l a b x y z by simp
qed

lemma gamma_range:
  assumes "0 \<le> v" and "v \<le> 1"
  shows "0 \<le> rgbToXyz_applyGamma v" and "rgbToXyz_applyGamma v \<le> 1"
proof -
  show "0 \<le> rgbToXyz_applyGamma v" using assms(1) by (simp add: rgbToXyz_applyGamma_def)
  have "((v + 0.055) / 1.055) powr 2.4 \<le> 1" using assms by (intro powr_le1) simp_all
  moreover have "v / 12.92 \<le> 1" using assms(2) by simp
  ultimately show "rgbToXyz_applyGamma v \<le> 1" by (simp add: rgbToXyz_applyGamma_def)
qed

lemma round_within_one:
  fixes y :: real and k :: int
  assumes "of_int k - 3 / 2 \<le> y" and "y < of_int k + 3 / 2"
  shows "\<bar>round y - k\<bar> \<le> 1"
proof -
  have "of_int (k - 1) \<le> y + 1 / 2" using assms(1) by simp
  then have lo: "k - 1 \<le> round y" unfolding round_def by (simp add: le_floor_iff)
  have "y + 1 / 2 < of_int (k + 2)" using assms(2) by simp
  then have "round y < k + 2" unfolding round_def by (simp add: floor_less_iff)
  then show ?thesis using lo by simp
qed

lemma clamp01_within:
  fixes y k :: real
  assumes "k - 3 / 2 \<le> 255 * y" and "255 * y < k + 3 / 2" and "0 \<le> k" and "k \<le> 255"
  shows "k - 3 / 2 \<le> clamp01 y * 255" and "clamp01 y * 255 < k + 3 / 2"
  using assms by (auto simp: clamp01_def max_def min_def)

lemma power_zone:
  fixes u T :: real
  assumes u: "1001 / 10761 \<le> u" "u \<le> 1"
    and lo: "u powr 2.4 - 1 / 100000 \<le> T" and hi: "T \<le> u powr 2.4 + 7 / 100000"
  shows "0.0031308 < T" and "u - 60 / 10761 \<le> T powr (1 / 2.4)"
    and "T powr (1 / 2.4) < u + 60 / 10761"
proof -
  define k :: real where "k = 60 / 10761"
  define G where "G = u powr 2.4"
  define q where "q = u powr 1.4"
  have upos: "0 < u" using u(1) by simp
  have kpos: "0 < k" "k \<le> u" using u(1) by (simp_all add: k_def)
  have e24: "(2.4 :: real) = real 12 / real 5" by simp
  \<comment> \<open>a numeric lower bound for the linear value\<close>
  have "(0.0033 :: real) \<le> (1001 / 10761) powr (real 12 / real 5)"
    by (rule powr_frac_lower) (simp_all add: power_divide)
  also have "\<dots> \<le> u powr (real 12 / real 5)" using u(1) by (intro powr_mono2) simp_all
  finally have G_lo: "0.0033 \<le> G" by (simp add: G_def)
  show Tbig: "0.0031308 < T" using G_lo lo by (simp add: G_def)
  have Tpos: "0 < T" using Tbig by simp
  \<comment> \<open>the slope: \<open>G = u * q\<close> with \<open>q \<ge> u\<^sup>2\<close>\<close>
  have "u powr (1 + 1.4) = u powr 1 * u powr 1.4" by (rule powr_add)
  then have Guq: "G = u * q" using upos by (simp add: G_def q_def)
  have "u powr 2 \<le> u powr 1.4" using u upos by (intro powr_mono') simp_all
  then have "u ^ 2 \<le> q" using upos by (simp add: q_def)
  moreover have "(1001 / 10761) ^ 2 \<le> u ^ 2" using u(1) by (intro power_mono) simp_all
  moreover have "(0.00865 :: real) \<le> (1001 / 10761) ^ 2" by (simp add: power_divide)
  ultimately have q_lo: "0.00865 \<le> q" by linarith
  have kq: "k / u * G = k * q" using upos by (simp add: Guq)
  \<comment> \<open>upper comparison point\<close>
  have up1: "(u + k) powr 2.4 = G * (1 + k / u) powr 2.4"
  proof -
    have "u + k = u * (1 + k / u)" using upos by (simp add: field_simps)
    then show ?thesis by (simp add: powr_mult G_def)
  qed
  have "(1 + k / u) powr 2 \<le> (1 + k / u) powr 2.4"
    using kpos upos by (intro powr_mono) simp_all
  then have "(1 + k / u) ^ 2 \<le> (1 + k / u) powr 2.4" using kpos upos by simp
  moreover have "1 + 2 * (k / u) \<le> (1 + k / u) ^ 2" by (simp add: power2_eq_square algebra_simps)
  ultimately have "1 + 2 * (k / u) \<le> (1 + k / u) powr 2.4" by linarith
  then have "G * (1 + 2 * (k / u)) \<le> G * (1 + k / u) powr 2.4"
    using G_lo by (intro mult_left_mono) simp_all
  moreover have "G * (1 + 2 * (k / u)) = G + 2 * (k / u * G)" by (simp add: algebra_simps)
  ultimately have "G + 2 * (k * q) \<le> (u + k) powr 2.4"
    unfolding up1 kq by simp
  moreover have "7 / 100000 < 2 * (k * q)"
  proof -
    have "k * 0.00865 \<le> k * q" using q_lo kpos by (intro mult_left_mono) simp_all
    then show ?thesis by (simp add: k_def)
  qed
  ultimately have "T < (u + k) powr 2.4" using hi by (simp add: G_def)
  then have "T powr (1 / 2.4) < ((u + k) powr 2.4) powr (1 / 2.4)"
    using Tpos by (intro powr_less_mono2) simp_all
  also have "\<dots> = u + k" using upos kpos by (simp add: powr_powr)
  finally show "T powr (1 / 2.4) < u + 60 / 10761" by (simp add: k_def)
  \<comment> \<open>lower comparison point\<close>
  have r: "0 \<le> 1 - k / u" "1 - k / u \<le> 1" "k / u \<le> 1" "0 \<le> k / u"
    using kpos upos by simp_all
  have lo1: "(u - k) powr 2.4 = G * (1 - k / u) powr 2.4"
  proof -
    have "u - k = u * (1 - k / u)" using upos by (simp add: field_simps)
    then show ?thesis by (simp add: powr_mult G_def)
  qed
  have "(1 - k / u) powr 2.4 \<le> (1 - k / u) powr 2" using r by (intro powr_mono') simp_all
  then have "(1 - k / u) powr 2.4 \<le> (1 - k / u) ^ 2" using r by simp
  moreover have "(1 - k / u) ^ 2 \<le> 1 - k / u"
  proof -
    have "(k / u) * (k / u) \<le> 1 * (k / u)" using r by (intro mult_right_mono) simp_all
    then show ?thesis by (simp add: power2_eq_square algebra_simps)
  qed
  ultimately have "(1 - k / u) powr 2.4 \<le> 1 - k / u" by linarith
  then have "G * (1 - k / u) powr 2.4 \<le> G * (1 - k / u)"
    using G_lo by (intro mult_left_mono) simp_all
  moreover have "G * (1 - k / u) = G - k / u * G" by (simp add: algebra_simps)
  ultimately have "(u - k) powr 2.4 \<le> G - k * q"
    unfolding lo1 kq by simp
  moreover have "1 / 100000 < k * q"
  proof -
    have "k * 0.00865 \<le> k * q" using q_lo kpos by (intro mult_left_mono) simp_all
    then show ?thesis by (simp add: k_def)
  qed
  ultimately have below: "(u - k) powr 2.4 \<le> T" using lo by (simp add: G_def)
  have "u - k = ((u - k) powr 2.4) powr (1 / 2.4)" using kpos by (simp add: powr_powr)
  also have "\<dots> \<le> T powr (1 / 2.4)" using below by (intro powr_mono2) simp_all
  finally show "u - 60 / 10761 \<le> T powr (1 / 2.4)" by (simp add: k_def)
qed

lemma channel_round_trip:
  fixes c :: nat and T :: real
  assumes c: "c \<le> 255"
    and lo: "rgbToXyz_applyGamma (real c / 255) - 1 / 100000 \<le> T"
    and hi: "T \<le> rgbToXyz_applyGamma (real c / 255) + 7 / 100000"
  shows "\<bar>round (clamp01 (xyzToRgb_applyGamma T) * 255) - int c\<bar> \<le> 1"
proof -
  have key: "real c - 3 / 2 \<le> 255 * xyzToRgb_applyGamma T \<and>
             255 * xyzToRgb_applyGamma T < real c + 3 / 2"
  proof (cases "c \<le> 10")
    case True
    then have s: "real c / 255 \<le> 10 / 255" by simp
    then have g: "rgbToXyz_applyGamma (real c / 255) = real c / 255 / 12.92"
      by (simp add: rgbToXyz_applyGamma_def)
    have "T \<le> 10 / 255 / 12.92 + 7 / 100000" using hi s unfolding g by simp
    then have lin: "xyzToRgb_applyGamma T = 12.92 * T" by (simp add: xyzToRgb_applyGamma_def)
    show ?thesis unfolding lin using lo hi unfolding g by simp
  next
    case False
    then have c11: "11 \<le> real c" by simp
    define u where "u = (real c / 255 + 0.055) / 1.055"
    have u: "1001 / 10761 \<le> u" "u \<le> 1" using c11 c by (simp_all add: u_def)
    have "real c / 255 > 0.04045" using c11 by simp
    then have g: "rgbToXyz_applyGamma (real c / 255) = u powr 2.4"
      by (simp add: rgbToXyz_applyGamma_def u_def)
    note z = power_zone [OF u lo [unfolded g] hi [unfolded g]]
    have pw: "xyzToRgb_applyGamma T = 1.055 * T powr (1 / 2.4) - 0.055"
      using z(1) by (simp add: xyzToRgb_applyGamma_def)
    have a: "255 * (1.055 * (u - 60 / 10761) - 0.055) = real c - 3 / 2" by (simp add: u_def field_simps)
    have b: "255 * (1.055 * (u + 60 / 10761) - 0.055) = real c + 3 / 2" by (simp add: u_def field_simps)
    have "255 * (1.055 * (u - 60 / 10761) - 0.055) \<le> 255 * (1.055 * T powr (1 / 2.4) - 0.055)"
      using z(2) by simp
    moreover have "255 * (1.055 * T powr (1 / 2.4) - 0.055) < 255 * (1.055 * (u + 60 / 10761) - 0.055)"
      using z(3) by simp
    ultimately show ?thesis unfolding pw a b by simp
  qed
  have r: "(0::real) \<le> real c" "real c \<le> 255" using c by simp_all
  have "real_of_int (int c) - 3 / 2 \<le> clamp01 (xyzToRgb_applyGamma T) * 255"
    "clamp01 (xyzToRgb_applyGamma T) * 255 < real_of_int (int c) + 3 / 2"
    using clamp01_within [of "real c" "xyzToRgb_applyGamma T"] key r by simp_all
  then show ?thesis by (rule round_within_one)
qed

text \<open>
  C4. For all channel values \<open>r, g, b\<close> in \<open>0..255\<close>, converting to Lab and back changes no
  channel by more than 1. (Over the reals the Lab step is inverted exactly; the two 3x3
  matrices are inverse up to \<open>7 * 10\<^sup>-\<^sup>5\<close> in every linear channel, which the gamma curve
  turns into less than a quarter of an 8-bit step.)
\<close>

theorem rgb_lab_round_trip:
  fixes r g b :: nat
  assumes "r \<le> 255" and "g \<le> 255" and "b \<le> 255"
  shows "\<bar>rgb_r (labToRgb (lab_l (rgbToLab (real r) (real g) (real b)))
                       (lab_a (rgbToLab (real r) (real g) (real b)))
                       (lab_b (rgbToLab (real r) (real g) (real b)))) - int r\<bar> \<le> 1 \<and>
         \<bar>rgb_g (labToRgb (lab_l (rgbToLab (real r) (real g) (real b)))
                       (lab_a (rgbToLab (real r) (real g) (real b)))
                       (lab_b (rgbToLab (real r) (real g) (real b)))) - int g\<bar> \<le> 1 \<and>
         \<bar>rgb_b (labToRgb (lab_l (rgbToLab (real r) (real g) (real b)))
                       (lab_a (rgbToLab (real r) (real g) (real b)))
                       (lab_b (rgbToLab (real r) (real g) (real b)))) - int b\<bar> \<le> 1"
proof -
  define Gr where "Gr = rgbToXyz_applyGamma (real r / 255)"
  define Gg where "Gg = rgbToXyz_applyGamma (real g / 255)"
  define Gb where "Gb = rgbToXyz_applyGamma (real b / 255)"
  have R: "0 \<le> Gr" "Gr \<le> 1" unfolding Gr_def using assms(1) by (intro gamma_range; simp)+
  have G: "0 \<le> Gg" "Gg \<le> 1" unfolding Gg_def using assms(2) by (intro gamma_range; simp)+
  have B: "0 \<le> Gb" "Gb \<le> 1" unfolding Gb_def using assms(3) by (intro gamma_range; simp)+
  define x where "x = Gr * 100 * 0.4124 + Gg * 100 * 0.3576 + Gb * 100 * 0.1805"
  define y where "y = Gr * 100 * 0.2126 + Gg * 100 * 0.7152 + Gb * 100 * 0.0722"
  define z where "z = Gr * 100 * 0.0193 + Gg * 100 * 0.1192 + Gb * 100 * 0.9505"
  have xyz: "rgbToXyz (real r) (real g) (real b) = \<lparr> xyz_x = x, xyz_y = y, xyz_z = z \<rparr>"
    by (simp add: rgbToXyz_def Let_def x_def y_def z_def Gr_def Gg_def Gb_def)
  have pos: "0 \<le> x" "0 \<le> y" "0 \<le> z" using R G B by (simp_all add: x_def y_def z_def)
  have rt: "labToRgb (lab_l (rgbToLab (real r) (real g) (real b)))
                       (lab_a (rgbToLab (real r) (real g) (real b)))
                       (lab_b (rgbToLab (real r) (real g) (real b))) = xyzToRgb x y z"
    unfolding labToRgb_def rgbToLab_def xyz Let_def XyzColor.select_convs
      labToXyz_xyzToLab [OF pos] ..
  define Tr where "Tr = x / 100 * 3.2406 + y / 100 * (- 1.5372) + z / 100 * (- 0.4986)"
  define Tg where "Tg = x / 100 * (- 0.9689) + y / 100 * 1.8758 + z / 100 * 0.0415"
  define Tb where "Tb = x / 100 * 0.0557 + y / 100 * (- 0.2040) + z / 100 * 1.0570"
  have out: "xyzToRgb x y z =
      \<lparr> rgb_r = round (clamp01 (xyzToRgb_applyGamma Tr) * 255),
        rgb_g = round (clamp01 (xyzToRgb_applyGamma Tg) * 255),
        rgb_b = round (clamp01 (xyzToRgb_applyGamma Tb) * 255) \<rparr>"
    by (simp add: xyzToRgb_def Let_def Tr_def Tg_def Tb_def)
  have er: "Tr = 49999587 / 50000000 * Gr + 579 / 25000000 * Gb"
    unfolding Tr_def x_def y_def z_def by (simp add: add_divide_distrib diff_divide_distrib algebra_simps)
  have eg: "Tg = 2167 / 100000000 * Gr + 1562563 / 1562500 * Gg - 397 / 50000000 * Gb"
    unfolding Tg_def x_def y_def z_def by (simp add: add_divide_distrib diff_divide_distrib algebra_simps)
  have eb: "Tb = 19 / 50000000 * Gr + 149 / 12500000 * Gg + 20000071 / 20000000 * Gb"
    unfolding Tb_def x_def y_def z_def by (simp add: add_divide_distrib diff_divide_distrib algebra_simps)
  have tr: "Gr - 1 / 100000 \<le> Tr" "Tr \<le> Gr + 7 / 100000"
    using R G B unfolding er by linarith+
  have tg: "Gg - 1 / 100000 \<le> Tg" "Tg \<le> Gg + 7 / 100000"
    using R G B unfolding eg by linarith+
  have tb: "Gb - 1 / 100000 \<le> Tb" "Tb \<le> Gb + 7 / 100000"
    using R G B unfolding eb by linarith+
  show ?thesis
    unfolding rt out RgbColor.select_convs
    using channel_round_trip [OF assms(1) tr [unfolded Gr_def]]
      channel_round_trip [OF assms(2) tg [unfolded Gg_def]]
      channel_round_trip [OF assms(3) tb [unfolded Gb_def]]
    by simp
qed

theorem rgb_lab_round_trip_witness:
  "(212::nat) \<le> 255 \<and> (175::nat) \<le> 255 \<and> (55::nat) \<le> 255 \<and>
   \<bar>rgb_r (labToRgb (lab_l (rgbToLab 212 175 55)) (lab_a (rgbToLab 212 175 55))
                     (lab_b (rgbToLab 212 175 55))) - 212\<bar> \<le> 1 \<and>
   \<bar>rgb_g (labToRgb (lab_l (rgbToLab 212 175 55)) (lab_a (rgbToLab 212 175 55))
                     (lab_b (rgbToLab 212 175 55))) - 175\<bar> \<le> 1 \<and>
   \<bar>rgb_b (labToRgb (lab_l (rgbToLab 212 175 55)) (lab_a (rgbToLab 212 175 55))
                     (lab_b (rgbToLab 212 175 55))) - 55\<bar> \<le> 1"
  using rgb_lab_round_trip [of 212 175 55] by simp

subsection \<open>colorConverter.ts: the anchor interpolation\<close>

lemma transformLabColor_total:
  "references \<noteq> [] \<Longrightarrow> \<exists>res. transformLabColor lab references rs = Inr res"
  by (cases references) (simp_all add: transformLabColor_def Let_def)

lemma transformedPixel_total:
  "refs \<noteq> [] \<Longrightarrow> \<exists>rgb. transformedPixel refs rmap dat i = Inr rgb"
proof -
  assume "refs \<noteq> []"
  then obtain res where "transformLabColor (rgbToLab (byteNum (dat ! i)) (byteNum (dat ! (i + 1))) (byteNum (dat ! (i + 2)))) refs
      (if i div 4 < length rmap then byteNum (rmap ! (i div 4)) else 0) = Inr res"
    using transformLabColor_total by blast
  then show ?thesis by (simp add: transformedPixel_def Let_def)
qed

lemma transformPixels_frame:
  "i mod 4 = 0 \<Longrightarrow> refs \<noteq> [] \<Longrightarrow>
   \<exists>out. transformPixels refs msk rmap i dat = Inr out \<and> length out = length dat \<and>
     (\<forall>j. \<not> maskSet msk (j div 4) \<or> j mod 4 = 3 \<or> j < i \<longrightarrow> out ! j = dat ! j)"
proof (induction refs msk rmap i dat rule: transformPixels.induct)
  case (1 refs msk rmap i dat)
  show ?case
  proof (cases "i < length dat")
    case False
    then show ?thesis by (subst transformPixels.simps) simp
  next
    case inb: True
    have next_mod: "(i + 4) mod 4 = 0" using "1.prems"(1) by simp
    show ?thesis
    proof (cases "maskSet msk (i div 4)")
      case False
      from "1.IH"(2) [OF inb False next_mod "1.prems"(2)]
      obtain out where o: "transformPixels refs msk rmap (i + 4) dat = Inr out"
        "length out = length dat"
        "\<forall>j. \<not> maskSet msk (j div 4) \<or> j mod 4 = 3 \<or> j < i + 4 \<longrightarrow> out ! j = dat ! j"
        by blast
      have "transformPixels refs msk rmap i dat = Inr out"
        using inb False o(1) by (subst transformPixels.simps) simp
      moreover have "\<forall>j. \<not> maskSet msk (j div 4) \<or> j mod 4 = 3 \<or> j < i \<longrightarrow> out ! j = dat ! j"
        using o(3) by auto
      ultimately show ?thesis using o(2) by blast
    next
      case True
      obtain rgb where rgb: "transformedPixel refs rmap dat i = Inr rgb"
        using transformedPixel_total [OF "1.prems"(2)] by blast
      define dat' where "dat' = dat[i := toUint8Clamp (rgb_r rgb), i + 1 := toUint8Clamp (rgb_g rgb),
                       i + 2 := toUint8Clamp (rgb_b rgb)]"
      from "1.IH"(1) [OF inb True rgb next_mod "1.prems"(2)]
      obtain out where o: "transformPixels refs msk rmap (i + 4) dat' = Inr out"
        "length out = length dat'"
        "\<forall>j. \<not> maskSet msk (j div 4) \<or> j mod 4 = 3 \<or> j < i + 4 \<longrightarrow> out ! j = dat' ! j"
        unfolding dat'_def by blast
      have run: "transformPixels refs msk rmap i dat = Inr out"
        using inb True rgb o(1) unfolding dat'_def by (subst transformPixels.simps) simp
      have len: "length out = length dat" using o(2) by (simp add: dat'_def)
      have frame: "out ! j = dat ! j"
        if j: "\<not> maskSet msk (j div 4) \<or> j mod 4 = 3 \<or> j < i" for j
      proof -
        have ne: "j \<noteq> i \<and> j \<noteq> i + 1 \<and> j \<noteq> i + 2"
        proof -
          have "j div 4 = i div 4 \<and> j mod 4 \<noteq> 3 \<and> \<not> j < i" if "j = i \<or> j = i + 1 \<or> j = i + 2"
            using quad_offsets [OF "1.prems"(1) that] .
          then show ?thesis using j True by metis
        qed
        have "\<not> maskSet msk (j div 4) \<or> j mod 4 = 3 \<or> j < i + 4" using j by linarith
        then have "out ! j = dat' ! j" using o(3) by blast
        also have "\<dots> = dat ! j" using ne by (simp add: dat'_def)
        finally show ?thesis .
      qed
      show ?thesis using run len frame by blast
    qed
  qed
qed

lemma colorRefs_nonempty: "colorRefs sourceColor targetColor \<noteq> []"
  by (simp add: colorRefs_def YELLOW_TO_ROSE_REFS_def ROSE_TO_YELLOW_REFS_def)

text \<open>
  C3. Whatever the buffer, the msk, the reflection map and the direction, the transform
  returns a buffer of the same length in which every channel of every pixel whose msk
  entry is not set (zero, or beyond the end of the msk) holds the input byte.
\<close>

theorem transformMetalColor_unmasked_unchanged:
  "\<exists>out. transformMetalColor dat sourceColor targetColor msk rmap = Inr out \<and>
         length out = length dat \<and>
         (\<forall>p c. c < 4 \<and> \<not> maskSet msk p \<longrightarrow> out ! (4 * p + c) = dat ! (4 * p + c))"
proof -
  obtain out where o: "transformPixels (colorRefs sourceColor targetColor) msk rmap 0 dat = Inr out"
    "length out = length dat"
    "\<forall>j. \<not> maskSet msk (j div 4) \<or> j mod 4 = 3 \<or> j < 0 \<longrightarrow> out ! j = dat ! j"
    using transformPixels_frame [of 0 "colorRefs sourceColor targetColor" msk rmap dat]
      colorRefs_nonempty by auto
  have "out ! (4 * p + c) = dat ! (4 * p + c)" if "c < 4" "\<not> maskSet msk p" for p c
    using o(3) that quad_channel(1) [of c p] by simp
  then show ?thesis using o(1,2) by (auto simp: transformMetalColor_def)
qed

theorem transformMetalColor_unmasked_unchanged_witness:
  "\<exists>out. transformMetalColor [10, 20, 30, 40, 212, 175, 55, 255] Yellow Rose [0, 255] [0, 200] = Inr out \<and>
         \<not> maskSet [0, 255] 0 \<and>
         out ! 0 = 10 \<and> out ! 1 = 20 \<and> out ! 2 = 30 \<and> out ! 3 = 40"
proof -
  obtain out where o:
    "transformMetalColor [10, 20, 30, 40, 212, 175, 55, 255] Yellow Rose [0, 255] [0, 200] = Inr out"
    "\<forall>p c. c < 4 \<and> \<not> maskSet [0, 255] p \<longrightarrow>
        out ! (4 * p + c) = [10, 20, 30, 40, 212, 175, 55, 255 :: byte] ! (4 * p + c)"
    using transformMetalColor_unmasked_unchanged
      [of "[10, 20, 30, 40, 212, 175, 55, 255]" Yellow Rose "[0, 255]" "[0, 200]"] by blast
  have m: "\<not> maskSet [0, 255] 0" by (simp add: maskSet_def)
  have e: "out ! (4 * 0 + c) = [10, 20, 30, 40, 212, 175, 55, 255 :: byte] ! (4 * 0 + c)" if "c < 4" for c
    using o(2) m that by blast
  have e0: "out ! 0 = 10" using e [of 0] by simp
  have e1: "out ! 1 = 20" using e [of 1] by simp
  have e2: "out ! 2 = 30" using e [of 2] by (simp add: numeral_2_eq_2)
  have e3: "out ! 3 = 40" using e [of 3] by (simp add: numeral_3_eq_3)
  show ?thesis using o(1) m e0 e1 e2 e3 by blast
qed

lemma labDistance_self: "labDistance c c = 0"
  by (simp add: labDistance_def)

lemma labDistance_nonneg: "0 \<le> labDistance c d"
  by (simp add: labDistance_def)























subsection \<open>imageProcessing.ts: the direct HSV remap\<close>

















subsection \<open>imageEnhancer.ts: artifact suppression and the sharpening fallback\<close>

lemma channels_length:
  "length (fold (\<lambda>c output. output[i4 + c := val c]) [0..<3] out) = length out"
  by (simp add: upt_0_3)

lemma channels_nth:
  assumes "i4 = 4 * q" and "j < length out"
  shows "fold (\<lambda>c output. output[i4 + c := val c]) [0..<3] out ! j =
           (if j div 4 = q \<and> j mod 4 < 3 then val (j mod 4) else out ! j)"
proof (cases "j div 4 = q \<and> j mod 4 < 3")
  case True
  then have j: "j = 4 * q + j mod 4" by (metis mult_div_mod_eq)
  from True consider "j mod 4 = 0" | "j mod 4 = 1" | "j mod 4 = 2" by linarith
  then show ?thesis
  proof cases
    case 1
    then have "j = i4" using j assms(1) by simp
    then show ?thesis using True 1 assms(2) by (simp add: upt_0_3)
  next
    case 2
    then have "j = i4 + 1" using j assms(1) by simp
    then show ?thesis using True 2 assms(2) by (simp add: upt_0_3)
  next
    case 3
    then have "j = i4 + 2" using j assms(1) by simp
    then show ?thesis using True 3 assms(2) by (simp add: upt_0_3)
  qed
next
  case False
  have "j \<noteq> i4 + c" if "c < 3" for c
  proof
    assume e: "j = i4 + c"
    have "c < 4" using that by simp
    then have "j div 4 = q \<and> j mod 4 = c" using e assms(1) by simp
    then show False using False that by simp
  qed
  from this [of 0] this [of 1] this [of 2] have "j \<noteq> i4" "j \<noteq> i4 + 1" "j \<noteq> i4 + 2" by simp_all
  then have "fold (\<lambda>c output. output[i4 + c := val c]) [0..<3] out ! j = out ! j"
    by (simp add: upt_0_3)
  then show ?thesis using False by presburger
qed

lemma pixel_step_nth:
  assumes "j < length out"
  shows "(if cnd then fold (\<lambda>c output. output[(y * w + x) * 4 + c := val c]) [0..<3] out else out) ! j =
           (if cnd \<and> j div 4 = y * w + x \<and> j mod 4 < 3 then val (j mod 4) else out ! j)"
  using channels_nth [of "(y * w + x) * 4" "y * w + x" j out val] assms by simp

lemma row_length:
  "length (fold (\<lambda>x output. if cond x y then
              fold (\<lambda>c output. output[(y * w + x) * 4 + c := val x y c]) [0..<3] output
            else output) xs out) = length out"
  by (induction xs arbitrary: out) (simp_all add: channels_length)

lemma row_nth:
  assumes "j < length out"
  shows "fold (\<lambda>x output. if cond x y then
              fold (\<lambda>c output. output[(y * w + x) * 4 + c := val x y c]) [0..<3] output
            else output) xs out ! j =
         (if j mod 4 < 3 \<and> (\<exists>x \<in> set xs. j div 4 = y * w + x \<and> cond x y)
          then val (j div 4 - y * w) y (j mod 4) else out ! j)"
  using assms
proof (induction xs arbitrary: out)
  case Nil
  then show ?case by simp
next
  case (Cons a xs)
  let ?out' = "if cond a y then
              fold (\<lambda>c output. output[(y * w + a) * 4 + c := val a y c]) [0..<3] out
            else out"
  have len: "j < length ?out'" using Cons.prems by (simp add: channels_length)
  have here: "?out' ! j = (if cond a y \<and> j div 4 = y * w + a \<and> j mod 4 < 3
                           then val a y (j mod 4) else out ! j)"
    using pixel_step_nth [OF Cons.prems, of "cond a y" y w a "val a y"] .
  have a_val: "val a y (j mod 4) = val (j div 4 - y * w) y (j mod 4)" if "j div 4 = y * w + a"
    using that by simp
  show ?case
    unfolding fold_simps Cons.IH [OF len] here
    using a_val by auto
qed

lemma pixel_index_unique:
  fixes x y w p :: nat
  assumes "p = y * w + x" and "x < w"
  shows "p mod w = x" and "p div w = y"
  using assms by simp_all

lemma interiorLoop_length: "length (interiorLoop w h cond val out) = length out"
proof -
  have "length (fold (\<lambda>y output.
        fold (\<lambda>x output.
           if cond x y then
             fold (\<lambda>c output. output[(y * w + x) * 4 + c := val x y c]) [0..<3] output
           else output)
          [1..<w - 1] output) ys out) = length out" for ys
    by (induction ys arbitrary: out) (simp_all add: row_length)
  then show ?thesis by (simp add: interiorLoop_def)
qed

lemma rows_nth:
  assumes "j < length out"
  shows "fold (\<lambda>y output.
        fold (\<lambda>x output.
           if cond x y then
             fold (\<lambda>c output. output[(y * w + x) * 4 + c := val x y c]) [0..<3] output
           else output)
          [1..<w - 1] output) ys out ! j =
         (if j mod 4 < 3 \<and> (\<exists>y \<in> set ys. \<exists>x \<in> set [1..<w - 1]. j div 4 = y * w + x \<and> cond x y)
          then val ((j div 4) mod w) ((j div 4) div w) (j mod 4) else out ! j)"
  using assms
proof (induction ys arbitrary: out)
  case Nil
  then show ?case by simp
next
  case (Cons a ys)
  let ?row = "fold (\<lambda>x output.
           if cond x a then
             fold (\<lambda>c output. output[(a * w + x) * 4 + c := val x a c]) [0..<3] output
           else output)
          [1..<w - 1] out"
  have len: "j < length ?row" using Cons.prems by (simp add: row_length)
  have here: "?row ! j = (if j mod 4 < 3 \<and> (\<exists>x \<in> set [1..<w - 1]. j div 4 = a * w + x \<and> cond x a)
          then val (j div 4 - a * w) a (j mod 4) else out ! j)"
    using row_nth [OF Cons.prems] .
  have a_val: "val (j div 4 - a * w) a (j mod 4) = val ((j div 4) mod w) ((j div 4) div w) (j mod 4)"
    if "x \<in> set [1..<w - 1]" "j div 4 = a * w + x" for x
  proof -
    have "x < w" using that(1) by auto
    then show ?thesis using pixel_index_unique [OF that(2)] that(2) by simp
  qed
  show ?case
    unfolding fold_simps Cons.IH [OF len] here
    using a_val by (auto simp del: set_upt)
qed

lemma interior_iff:
  "(\<exists>y \<in> set [1..<h - 1]. \<exists>x \<in> set [1..<w - 1]. p = y * w + x \<and> cond x y) \<longleftrightarrow>
   (interior w h (p mod w) (p div w) \<and> cond (p mod w) (p div w))"
proof
  assume "\<exists>y \<in> set [1..<h - 1]. \<exists>x \<in> set [1..<w - 1]. p = y * w + x \<and> cond x y"
  then obtain y x where yx: "1 \<le> y" "y < h - 1" "1 \<le> x" "x < w - 1" "p = y * w + x" "cond x y"
    by auto
  have "x < w" using yx(4) by auto
  then have "p mod w = x" "p div w = y" using pixel_index_unique [OF yx(5)] by simp_all
  then show "interior w h (p mod w) (p div w) \<and> cond (p mod w) (p div w)"
    using yx by (simp add: interior_def)
next
  assume r: "interior w h (p mod w) (p div w) \<and> cond (p mod w) (p div w)"
  have "p = (p div w) * w + p mod w" by simp
  then show "\<exists>y \<in> set [1..<h - 1]. \<exists>x \<in> set [1..<w - 1]. p = y * w + x \<and> cond x y"
    using r unfolding interior_def set_upt
    by (intro bexI [of _ "p div w"] bexI [of _ "p mod w"]) auto
qed

lemma interiorLoop_nth:
  assumes "j < length out"
  shows "interiorLoop w h cond val out ! j =
           (if j mod 4 < 3 \<and> interior w h ((j div 4) mod w) ((j div 4) div w)
               \<and> cond ((j div 4) mod w) ((j div 4) div w)
            then val ((j div 4) mod w) ((j div 4) div w) (j mod 4) else out ! j)"
  unfolding interiorLoop_def rows_nth [OF assms] interior_iff by simp

lemma removeArtifacts_loop:
  "data (removeArtifacts img) =
     interiorLoop (width img) (height img)
       (\<lambda>x y. isArtifact (data img) ((y * width img + x) * 4) (width img))
       (\<lambda>x y c. sort (neighborhood (data img) (width img) x y c) ! 4) (data img)"
  unfolding removeArtifacts_def interiorLoop_def Let_def by (simp only: ImageData.select_convs)

lemma enhanceImageStandard_loop:
  "data (enhanceImageStandard img) =
     interiorLoop (width img) (height img) (\<lambda>x y. True)
       (\<lambda>x y c. sharpened (data img) (width img) x y c) (data img)"
  unfolding enhanceImageStandard_def interiorLoop_def Let_def by (simp only: ImageData.select_convs if_True)

lemma removeArtifacts_dims:
  "width (removeArtifacts img) = width img" "height (removeArtifacts img) = height img"
  "length (data (removeArtifacts img)) = length (data img)"
  by (simp_all add: removeArtifacts_loop interiorLoop_length) (simp_all add: removeArtifacts_def Let_def)

lemma enhanceImageStandard_dims:
  "width (enhanceImageStandard img) = width img" "height (enhanceImageStandard img) = height img"
  "length (data (enhanceImageStandard img)) = length (data img)"
  by (simp_all add: enhanceImageStandard_loop interiorLoop_length)
     (simp_all add: enhanceImageStandard_def Let_def)

lemma pixel_coords:
  fixes x y w c :: nat
  assumes "x < w" and "c < 4"
  shows "((y * w + x) * 4 + c) div 4 = y * w + x" and "((y * w + x) * 4 + c) mod 4 = c"
    and "(y * w + x) mod w = x" and "(y * w + x) div w = y"
proof -
  have e: "(y * w + x) * 4 + c = 4 * (y * w + x) + c" by simp
  show "((y * w + x) * 4 + c) div 4 = y * w + x"
    unfolding e using quad_channel(1) [OF assms(2)] .
  show "((y * w + x) * 4 + c) mod 4 = c"
    unfolding e using quad_channel(2) [OF assms(2)] .
  show "(y * w + x) mod w = x" using assms(1) by simp
  show "(y * w + x) div w = y" using assms(1) by simp
qed

lemma pixel_in_buffer:
  fixes x y w h c :: nat
  assumes "x < w" and "y < h" and "c < 4"
  shows "(y * w + x) * 4 + c < 4 * w * h"
proof -
  have "y * w + x < (y + 1) * w" using assms(1) by simp
  also have "\<dots> \<le> h * w" using assms(2) by (intro mult_le_mono1) simp
  finally have "y * w + x + 1 \<le> w * h" by (simp add: mult.commute)
  then have "4 * (y * w + x + 1) \<le> 4 * (w * h)" by (rule mult_le_mono2)
  then show ?thesis using assms(3) by simp
qed

lemma interiorLoop_pixel:
  assumes "length out = 4 * w * h" and "x < w" and "y < h" and "c < 4"
  shows "interiorLoop w h cond val out ! ((y * w + x) * 4 + c) =
           (if c < 3 \<and> interior w h x y \<and> cond x y then val x y c
            else out ! ((y * w + x) * 4 + c))"
proof -
  have "(y * w + x) * 4 + c < length out"
    using pixel_in_buffer [OF assms(2-4)] assms(1) by simp
  from interiorLoop_nth [OF this, of w h cond val] show ?thesis
    unfolding pixel_coords [OF assms(2,4)] .
qed

lemma isArtifact_interior:
  assumes len: "length dat = 4 * w * h" and int: "interior w h x y"
  shows "isArtifact dat ((y * w + x) * 4) w \<longleftrightarrow>
           (colorDist dat ((y * w + x) * 4) (((y - 1) * w + x) * 4)
            + colorDist dat ((y * w + x) * 4) (((y + 1) * w + x) * 4)
            + colorDist dat ((y * w + x) * 4) ((y * w + (x - 1)) * 4)
            + colorDist dat ((y * w + x) * 4) ((y * w + (x + 1)) * 4)) / 4 > 40"
proof -
  from int have x: "1 \<le> x" "x + 1 < w" and y: "1 \<le> y" "y + 1 < h"
    by (auto simp: interior_def)
  let ?idx = "(y * w + x) * 4"
  have up: "int ?idx - int w * 4 = int (((y - 1) * w + x) * 4)"
  proof -
    have "y * w = (y - 1) * w + w" using y(1) by (simp add: algebra_simps flip: mult_Suc)
    then have "?idx = ((y - 1) * w + x) * 4 + w * 4" by simp
    then show ?thesis by simp
  qed
  have down: "int ?idx + int w * 4 = int (((y + 1) * w + x) * 4)"
    by (simp add: algebra_simps)
  have left: "int ?idx - 4 = int ((y * w + (x - 1)) * 4)"
  proof -
    have "x = (x - 1) + 1" using x(1) by simp
    then have "?idx = (y * w + (x - 1)) * 4 + 4" by (metis add.assoc distrib_right mult_1)
    then show ?thesis by simp
  qed
  have right: "int ?idx + 4 = int ((y * w + (x + 1)) * 4)"
    by (simp add: algebra_simps)
  have r1: "((y - 1) * w + x) * 4 < length dat"
    using pixel_in_buffer [of x w "y - 1" h 0] x y len by simp
  have r2: "((y + 1) * w + x) * 4 < length dat"
    using pixel_in_buffer [of x w "y + 1" h 0] x y len by simp
  have r3: "(y * w + (x - 1)) * 4 < length dat"
    using pixel_in_buffer [of "x - 1" w y h 0] x y len by simp
  have r4: "(y * w + (x + 1)) * 4 < length dat"
    using pixel_in_buffer [of "x + 1" w y h 0] x y len by simp
  show ?thesis
    unfolding isArtifact_def Let_def up down left right
    using r1 r2 r3 r4 by (simp del: of_nat_mult of_nat_add)
qed

lemma neighborhood_interior:
  assumes "1 \<le> x" and "1 \<le> y"
  shows "neighborhood dat w x y c =
           [dat ! (((y - 1) * w + (x - 1)) * 4 + c), dat ! (((y - 1) * w + x) * 4 + c),
            dat ! (((y - 1) * w + (x + 1)) * 4 + c),
            dat ! ((y * w + (x - 1)) * 4 + c), dat ! ((y * w + x) * 4 + c),
            dat ! ((y * w + (x + 1)) * 4 + c),
            dat ! (((y + 1) * w + (x - 1)) * 4 + c), dat ! (((y + 1) * w + x) * 4 + c),
            dat ! (((y + 1) * w + (x + 1)) * 4 + c)]"
proof -
  have ym: "int y + - 1 = int (y - 1)" and xm: "int x + - 1 = int (x - 1)"
    using assms by simp_all
  have y0: "int y + 0 = int y" and x0: "int x + 0 = int x" by simp_all
  have yp: "int y + 1 = int (y + 1)" and xp: "int x + 1 = int (x + 1)" by simp_all
  have e: "dat ! nat (((int y + dy) * int w + (int x + dx)) * 4 + int c) = dat ! ((a * w + b) * 4 + c)"
    if "int y + dy = int a" "int x + dx = int b" for dy dx a b
  proof -
    have "((int y + dy) * int w + (int x + dx)) * 4 + int c = int ((a * w + b) * 4 + c)"
      unfolding that by simp
    then show ?thesis by (simp only: nat_int)
  qed
  show ?thesis
    unfolding neighborhood_def
    by (simp only: list.map concat.simps append.simps
          e [OF ym xm] e [OF ym x0] e [OF ym xp]
          e [OF y0 xm] e [OF y0 x0] e [OF y0 xp]
          e [OF yp xm] e [OF yp x0] e [OF yp xp])
qed


lemma speckle_dist: "colorDist (data speckle3x3) 16 n = sqrt 108300"
  if "n \<in> {4, 28, 12, 20}"
  using that by (auto simp: colorDist_def speckle3x3_def byteNum_def)


lemma unat_toUint8Clamp: "int (unat (toUint8Clamp k)) = max 0 (min 255 k)"
proof -
  let ?m = "max 0 (min 255 k)"
  have r: "0 \<le> ?m" "?m < 256" by simp_all
  have "uint (word_of_int ?m :: 8 word) = ?m mod 2 ^ 8"
    by (simp add: uint_word_of_int)
  also have "\<dots> = ?m" using r by simp
  finally have "uint (toUint8Clamp k) = ?m" by (simp add: toUint8Clamp_def)
  then show ?thesis by simp
qed

lemma byteNum_toUint8Clamp: "byteNum (toUint8Clamp k) = real_of_int (max 0 (min 255 k))"
proof -
  have "byteNum (toUint8Clamp k) = real_of_int (int (unat (toUint8Clamp k)))"
    by (simp add: byteNum_def)
  then show ?thesis by (simp only: unat_toUint8Clamp)
qed

lemma sharpened_value:
  "byteNum (sharpened dat w x y c) =
     real_of_int (max 0 (min 255 (round
       (byteNum (dat ! ((y * w + x) * 4 + c))
        + 0.3 * (4 * byteNum (dat ! ((y * w + x) * 4 + c))
                 - byteNum (dat ! (((y - 1) * w + x) * 4 + c))
                 - byteNum (dat ! (((y + 1) * w + x) * 4 + c))
                 - byteNum (dat ! ((y * w + (x - 1)) * 4 + c))
                 - byteNum (dat ! ((y * w + (x + 1)) * 4 + c)))))))"
proof -
  have e: "cv + (- t + - l + 4 * cv + - r + - b) * 0.3 = cv + 0.3 * (4 * cv - t - b - l - r)"
    for cv t l r b :: real by simp
  have m: "max 0 (min 255 (max 0 (min 255 k))) = max 0 (min 255 k)" for k :: int by simp
  show ?thesis
    unfolding sharpened_def Let_def byteNum_toUint8Clamp e m ..
qed

text \<open>
  C8. When the external enhancement model fails, with whatever error, \<open>enhanceImage\<close>
  still returns an image: the sharpening fallback applied to the artifact-suppressed
  buffer. It has the dimensions of the input; each colour channel of an interior pixel is
  \<open>center + 0.3 * (4 * center - top - bottom - left - right)\<close>, rounded and clamped to
  \<open>[0, 255]\<close>, and every other byte is the byte of the artifact-suppressed buffer.
\<close>

theorem enhanceImage_fallback:
  assumes "model (removeArtifacts img) = Inl e"
    and "wfImageData img" and "x < width img" and "y < height img" and "c < 4"
  shows "enhanceImage model img = enhanceImageStandard (removeArtifacts img) \<and>
         width (enhanceImage model img) = width img \<and>
         height (enhanceImage model img) = height img \<and>
         length (data (enhanceImage model img)) = length (data img) \<and>
         (if c < 3 \<and> interior (width img) (height img) x y
          then byteNum (data (enhanceImage model img) ! ((y * width img + x) * 4 + c)) =
                 real_of_int (max 0 (min 255 (round
                   (byteNum (data (removeArtifacts img) ! ((y * width img + x) * 4 + c))
                    + 0.3 * (4 * byteNum (data (removeArtifacts img) ! ((y * width img + x) * 4 + c))
                             - byteNum (data (removeArtifacts img) ! (((y - 1) * width img + x) * 4 + c))
                             - byteNum (data (removeArtifacts img) ! (((y + 1) * width img + x) * 4 + c))
                             - byteNum (data (removeArtifacts img) ! ((y * width img + (x - 1)) * 4 + c))
                             - byteNum (data (removeArtifacts img) ! ((y * width img + (x + 1)) * 4 + c)))))))
          else data (enhanceImage model img) ! ((y * width img + x) * 4 + c) =
                 data (removeArtifacts img) ! ((y * width img + x) * 4 + c))"
proof -
  let ?ra = "removeArtifacts img"
  have fb: "enhanceImage model img = enhanceImageStandard ?ra"
    using assms(1) by (simp add: enhanceImage_def applySuperResolution_def)
  have len: "length (data ?ra) = 4 * width ?ra * height ?ra"
    using assms(2) by (simp add: removeArtifacts_dims wfImageData_def)
  have xy: "x < width ?ra" "y < height ?ra" using assms(3,4) by (simp_all add: removeArtifacts_dims)
  have px: "data (enhanceImageStandard ?ra) ! ((y * width ?ra + x) * 4 + c) =
          (if c < 3 \<and> interior (width ?ra) (height ?ra) x y \<and> True
           then sharpened (data ?ra) (width ?ra) x y c
           else data ?ra ! ((y * width ?ra + x) * 4 + c))"
    unfolding enhanceImageStandard_loop using interiorLoop_pixel [OF len xy assms(5)] .
  have dims: "width (enhanceImageStandard ?ra) = width img"
    "height (enhanceImageStandard ?ra) = height img"
    "length (data (enhanceImageStandard ?ra)) = length (data img)"
    by (simp_all add: enhanceImageStandard_dims removeArtifacts_dims)
  show ?thesis
    unfolding fb using dims px
    by (simp add: removeArtifacts_dims(1,2) sharpened_value)
qed

lemma speckle_isArtifact: "isArtifact (data speckle3x3) 16 3"
proof -
  have len: "length (data speckle3x3) = 4 * 3 * 3" by (simp add: speckle3x3_def)
  have int: "interior 3 3 1 1" by (simp add: interior_def)
  have big: "40 < sqrt 108300" by (rule real_less_rsqrt) simp
  show ?thesis
    using isArtifact_interior [OF len int] big by (simp add: speckle_dist)
qed

lemma speckle_cleaned_nth:
  "data (removeArtifacts speckle3x3) ! 4 = 10" "data (removeArtifacts speckle3x3) ! 12 = 10"
  "data (removeArtifacts speckle3x3) ! 16 = 10" "data (removeArtifacts speckle3x3) ! 20 = 10"
  "data (removeArtifacts speckle3x3) ! 28 = 10"
proof -
  have len: "length (data speckle3x3) = 4 * 3 * 3" by (simp add: speckle3x3_def)
  have w: "width speckle3x3 = 3" and h: "height speckle3x3 = 3" by (simp_all add: speckle3x3_def)
  note p = interiorLoop_pixel [OF len, where c = 0, simplified]
  have nb: "neighborhood (data speckle3x3) 3 1 1 0 = [10, 10, 10, 10, 200, 10, 10, 10, 10]"
    using neighborhood_interior [of 1 1 "data speckle3x3" 3 0] by (simp add: speckle3x3_def)
  show "data (removeArtifacts speckle3x3) ! 4 = 10"
    unfolding removeArtifacts_loop w h using p [of 1 0] by (simp add: interior_def speckle3x3_def)
  show "data (removeArtifacts speckle3x3) ! 12 = 10"
    unfolding removeArtifacts_loop w h using p [of 0 1] by (simp add: interior_def speckle3x3_def)
  show "data (removeArtifacts speckle3x3) ! 20 = 10"
    unfolding removeArtifacts_loop w h using p [of 2 1] by (simp add: interior_def speckle3x3_def)
  show "data (removeArtifacts speckle3x3) ! 28 = 10"
    unfolding removeArtifacts_loop w h using p [of 1 2] by (simp add: interior_def speckle3x3_def)
  have "interiorLoop 3 3 (\<lambda>x y. isArtifact (data speckle3x3) ((y * 3 + x) * 4) 3)
          (\<lambda>x y c. sort (neighborhood (data speckle3x3) 3 x y c) ! 4) (data speckle3x3) ! 16
        = sort (neighborhood (data speckle3x3) 3 1 1 0) ! 4"
    using p [of 1 1 "\<lambda>x y. isArtifact (data speckle3x3) ((y * 3 + x) * 4) 3"
               "\<lambda>x y c. sort (neighborhood (data speckle3x3) 3 x y c) ! 4"]
      speckle_isArtifact by (simp add: interior_def)
  then show "data (removeArtifacts speckle3x3) ! 16 = 10"
    unfolding removeArtifacts_loop w h nb by simp
qed

theorem enhanceImage_fallback_witness:
  "(\<lambda>i. Inl EnhancementFailed) (removeArtifacts speckle3x3) = (Inl EnhancementFailed :: error + ImageData) \<and>
   wfImageData speckle3x3 \<and> (1::nat) < width speckle3x3 \<and> (1::nat) < height speckle3x3 \<and>
   interior (width speckle3x3) (height speckle3x3) 1 1 \<and>
   enhanceImage (\<lambda>i. Inl EnhancementFailed) speckle3x3 = enhanceImageStandard (removeArtifacts speckle3x3) \<and>
   width (enhanceImage (\<lambda>i. Inl EnhancementFailed) speckle3x3) = 3 \<and>
   height (enhanceImage (\<lambda>i. Inl EnhancementFailed) speckle3x3) = 3 \<and>
   byteNum (data (enhanceImage (\<lambda>i. Inl EnhancementFailed) speckle3x3) ! 16) = 10"
proof -
  have wf: "wfImageData speckle3x3" by (simp add: wfImageData_def speckle3x3_def)
  have w: "width speckle3x3 = 3" and h: "height speckle3x3 = 3" by (simp_all add: speckle3x3_def)
  have int: "interior 3 3 1 1" by (simp add: interior_def)
  have f: "(\<lambda>i. Inl EnhancementFailed) (removeArtifacts speckle3x3) = (Inl EnhancementFailed :: error + ImageData)"
    by simp
  note t = enhanceImage_fallback [of "\<lambda>i. Inl EnhancementFailed" speckle3x3 EnhancementFailed 1 1 0,
      OF f wf, unfolded w h, simplified]
  have v: "byteNum (data (enhanceImage (\<lambda>i. Inl EnhancementFailed) speckle3x3) ! 16) = 10"
    using t [THEN conjunct2, THEN conjunct2, THEN conjunct2, THEN conjunct2] int
    by (simp add: speckle_cleaned_nth byteNum_def)
  have one: "(1::nat) < 3" by simp
  from t have t1: "enhanceImage (\<lambda>i. Inl EnhancementFailed) speckle3x3 = enhanceImageStandard (removeArtifacts speckle3x3)"
    and t2: "width (enhanceImage (\<lambda>i. Inl EnhancementFailed) speckle3x3) = 3"
    and t3: "height (enhanceImage (\<lambda>i. Inl EnhancementFailed) speckle3x3) = 3"
    by blast+
  show ?thesis unfolding w h using f wf int one t1 t2 t3 v by blast
qed

subsection \<open>The alpha channel\<close>

text \<open>
  C10. The alpha byte of every pixel (index \<open>4 * p + 3\<close>) is the same before and after the
  colour transfer, the median artifact filter and the sharpening fallback.
\<close>

theorem alpha_channel_unchanged:
  "(\<exists>out. transformMetalColor dat sourceColor targetColor msk rmap = Inr out \<and>
          length out = length dat \<and> (\<forall>p. out ! (4 * p + 3) = dat ! (4 * p + 3))) \<and>
   (\<forall>p. 4 * p + 3 < length (data img) \<longrightarrow>
        data (removeArtifacts img) ! (4 * p + 3) = data img ! (4 * p + 3)) \<and>
   (\<forall>p. 4 * p + 3 < length (data img) \<longrightarrow>
        data (enhanceImageStandard img) ! (4 * p + 3) = data img ! (4 * p + 3))"
proof (intro conjI allI impI)
  obtain out where o: "transformPixels (colorRefs sourceColor targetColor) msk rmap 0 dat = Inr out"
    "length out = length dat"
    "\<forall>j. \<not> maskSet msk (j div 4) \<or> j mod 4 = 3 \<or> j < 0 \<longrightarrow> out ! j = dat ! j"
    using transformPixels_frame [of 0 "colorRefs sourceColor targetColor" msk rmap dat]
      colorRefs_nonempty by auto
  have "out ! (4 * p + 3) = dat ! (4 * p + 3)" for p
    using o(3) quad_channel(2) [of 3 p] by simp
  then show "\<exists>out. transformMetalColor dat sourceColor targetColor msk rmap = Inr out \<and>
          length out = length dat \<and> (\<forall>p. out ! (4 * p + 3) = dat ! (4 * p + 3))"
    using o(1,2) by (auto simp: transformMetalColor_def)
next
  fix p assume "4 * p + 3 < length (data img)"
  from interiorLoop_nth [OF this] show "data (removeArtifacts img) ! (4 * p + 3) = data img ! (4 * p + 3)"
    unfolding removeArtifacts_loop using quad_channel(2) [of 3 p] by simp
next
  fix p assume "4 * p + 3 < length (data img)"
  from interiorLoop_nth [OF this] show "data (enhanceImageStandard img) ! (4 * p + 3) = data img ! (4 * p + 3)"
    unfolding enhanceImageStandard_loop using quad_channel(2) [of 3 p] by simp
qed

theorem alpha_channel_unchanged_witness:
  "4 * 4 + 3 < length (data speckle3x3) \<and>
   data (removeArtifacts speckle3x3) ! 19 = 255 \<and>
   data (enhanceImageStandard speckle3x3) ! 19 = 255 \<and>
   (\<exists>out. transformMetalColor (data speckle3x3) Yellow Rose (replicate 9 255) (replicate 9 0) = Inr out \<and>
          out ! 19 = 255)"
proof -
  note t = alpha_channel_unchanged [of "data speckle3x3" Yellow Rose "replicate 9 255" "replicate 9 0" speckle3x3]
  have l: "4 * 4 + 3 < length (data speckle3x3)" by (simp add: speckle3x3_def)
  have v: "data speckle3x3 ! (4 * 4 + 3) = 255" by (simp add: speckle3x3_def)
  from t l v have a: "data (removeArtifacts speckle3x3) ! (4 * 4 + 3) = 255"
    and b: "data (enhanceImageStandard speckle3x3) ! (4 * 4 + 3) = 255" by metis+
  from t v obtain out where
    c: "transformMetalColor (data speckle3x3) Yellow Rose (replicate 9 255) (replicate 9 0) = Inr out"
    and d: "out ! (4 * 4 + 3) = 255" by metis
  show ?thesis using l a b c d by simp
qed

subsection \<open>metalDetector.ts: clustering, classification and reflections\<close>

lemma kMeansRound_single:
  "kMeansRound [lab]
     [\<lparr> center = lab, points = p0 \<rparr>, \<lparr> center = lab, points = p1 \<rparr>, \<lparr> center = lab, points = p2 \<rparr>,
      \<lparr> center = lab, points = p3 \<rparr>, \<lparr> center = lab, points = p4 \<rparr>, \<lparr> center = lab, points = p5 \<rparr>]
   = [\<lparr> center = lab, points = [(lab, 0)] \<rparr>, \<lparr> center = lab, points = [] \<rparr>,
      \<lparr> center = lab, points = [] \<rparr>, \<lparr> center = lab, points = [] \<rparr>,
      \<lparr> center = lab, points = [] \<rparr>, \<lparr> center = lab, points = [] \<rparr>]"
proof -
  have n: "nearestClusterIndex
     [\<lparr> center = lab, points = [] \<rparr>, \<lparr> center = lab, points = [] \<rparr>, \<lparr> center = lab, points = [] \<rparr>,
      \<lparr> center = lab, points = [] \<rparr>, \<lparr> center = lab, points = [] \<rparr>, \<lparr> center = lab, points = [] \<rparr>] lab = 0"
    by (simp add: nearestClusterIndex_def upt_0_6 labDistance_self)
  have a: "assignPoints [lab]
     [\<lparr> center = lab, points = p0 \<rparr>, \<lparr> center = lab, points = p1 \<rparr>, \<lparr> center = lab, points = p2 \<rparr>,
      \<lparr> center = lab, points = p3 \<rparr>, \<lparr> center = lab, points = p4 \<rparr>, \<lparr> center = lab, points = p5 \<rparr>]
   = [\<lparr> center = lab, points = [(lab, 0)] \<rparr>, \<lparr> center = lab, points = [] \<rparr>,
      \<lparr> center = lab, points = [] \<rparr>, \<lparr> center = lab, points = [] \<rparr>,
      \<lparr> center = lab, points = [] \<rparr>, \<lparr> center = lab, points = [] \<rparr>]"
    by (simp add: assignPoints_def n)
  show ?thesis
    unfolding kMeansRound_def a by (simp add: updateCenter_def)
qed

lemma kMeans_single:
  "kMeansLabClustering [lab] 6 10 =
     [\<lparr> center = lab, points = [(lab, 0)] \<rparr>, \<lparr> center = lab, points = [] \<rparr>,
      \<lparr> center = lab, points = [] \<rparr>, \<lparr> center = lab, points = [] \<rparr>,
      \<lparr> center = lab, points = [] \<rparr>, \<lparr> center = lab, points = [] \<rparr>]"
proof -
  have i: "map (\<lambda>c. \<lparr> center = c, points = [] \<rparr>) (initialCenters [lab] 6) =
     [\<lparr> center = lab, points = [] \<rparr>, \<lparr> center = lab, points = [] \<rparr>, \<lparr> center = lab, points = [] \<rparr>,
      \<lparr> center = lab, points = [] \<rparr>, \<lparr> center = lab, points = [] \<rparr>, \<lparr> center = lab, points = [] \<rparr>]"
    by (simp add: initialCenters_def upt_0_6)
  have ten: "(10::nat) = Suc (Suc (Suc (Suc (Suc (Suc (Suc (Suc (Suc (Suc 0)))))))))" by simp
  show ?thesis
    unfolding kMeansLabClustering_def i ten kMeansIterate.simps kMeansRound_single ..
qed

lemma rgbToLab_bounds:
  fixes r g b :: real
  assumes R: "rl \<le> rgbToXyz_applyGamma (r / 255)" "rgbToXyz_applyGamma (r / 255) \<le> rh"
    and G: "gl \<le> rgbToXyz_applyGamma (g / 255)" "rgbToXyz_applyGamma (g / 255) \<le> gh"
    and B: "bl \<le> rgbToXyz_applyGamma (b / 255)" "rgbToXyz_applyGamma (b / 255) \<le> bh"
    and X: "0.008856 < (rl * 0.4124 + gl * 0.3576 + bl * 0.1805) * 100 / 95.047"
           "fxl ^ 3 \<le> (rl * 0.4124 + gl * 0.3576 + bl * 0.1805) * 100 / 95.047"
           "(rh * 0.4124 + gh * 0.3576 + bh * 0.1805) * 100 / 95.047 \<le> fxh ^ 3"
           "0 \<le> fxl" "0 \<le> fxh"
    and Y: "0.008856 < (rl * 0.2126 + gl * 0.7152 + bl * 0.0722) * 100 / 100"
           "fyl ^ 3 \<le> (rl * 0.2126 + gl * 0.7152 + bl * 0.0722) * 100 / 100"
           "(rh * 0.2126 + gh * 0.7152 + bh * 0.0722) * 100 / 100 \<le> fyh ^ 3"
           "0 \<le> fyl" "0 \<le> fyh"
    and Z: "0.008856 < (rl * 0.0193 + gl * 0.1192 + bl * 0.9505) * 100 / 108.883"
           "fzl ^ 3 \<le> (rl * 0.0193 + gl * 0.1192 + bl * 0.9505) * 100 / 108.883"
           "(rh * 0.0193 + gh * 0.1192 + bh * 0.9505) * 100 / 108.883 \<le> fzh ^ 3"
           "0 \<le> fzl" "0 \<le> fzh"
  shows "116 * fyl - 16 \<le> lab_l (rgbToLab r g b) \<and> lab_l (rgbToLab r g b) \<le> 116 * fyh - 16 \<and>
         500 * (fxl - fyh) \<le> lab_a (rgbToLab r g b) \<and> lab_a (rgbToLab r g b) \<le> 500 * (fxh - fyl) \<and>
         200 * (fyl - fzh) \<le> lab_b (rgbToLab r g b) \<and> lab_b (rgbToLab r g b) \<le> 200 * (fyh - fzl)"
proof -
  define gr where "gr = rgbToXyz_applyGamma (r / 255)"
  define gg where "gg = rgbToXyz_applyGamma (g / 255)"
  define gb where "gb = rgbToXyz_applyGamma (b / 255)"
  define x where "x = (gr * 0.4124 + gg * 0.3576 + gb * 0.1805) * 100 / 95.047"
  define y where "y = (gr * 0.2126 + gg * 0.7152 + gb * 0.0722) * 100 / 100"
  define z where "z = (gr * 0.0193 + gg * 0.1192 + gb * 0.9505) * 100 / 108.883"
  note gdefs = gr_def gg_def gb_def
  have xb: "(rl * 0.4124 + gl * 0.3576 + bl * 0.1805) * 100 / 95.047 \<le> x"
           "x \<le> (rh * 0.4124 + gh * 0.3576 + bh * 0.1805) * 100 / 95.047"
    using R G B unfolding x_def gdefs by simp_all
  have yb: "(rl * 0.2126 + gl * 0.7152 + bl * 0.0722) * 100 / 100 \<le> y"
           "y \<le> (rh * 0.2126 + gh * 0.7152 + bh * 0.0722) * 100 / 100"
    using R G B unfolding y_def gdefs by simp_all
  have zb: "(rl * 0.0193 + gl * 0.1192 + bl * 0.9505) * 100 / 108.883 \<le> z"
           "z \<le> (rh * 0.0193 + gh * 0.1192 + bh * 0.9505) * 100 / 108.883"
    using R G B unfolding z_def gdefs by simp_all
  have fx: "fxl \<le> applyTransform x" "applyTransform x \<le> fxh"
    using cbrt_bounds [of x fxl fxh] X xb by linarith+
  have fy: "fyl \<le> applyTransform y" "applyTransform y \<le> fyh"
    using cbrt_bounds [of y fyl fyh] Y yb by linarith+
  have fz: "fzl \<le> applyTransform z" "applyTransform z \<le> fzh"
    using cbrt_bounds [of z fzl fzh] Z zb by linarith+
  have lab: "rgbToLab r g b = \<lparr> lab_l = 116 * applyTransform y - 16,
                                   lab_a = 500 * (applyTransform x - applyTransform y),
                                   lab_b = 200 * (applyTransform y - applyTransform z) \<rparr>"
    by (simp add: rgbToLab_def rgbToXyz_def xyzToLab_def Let_def x_def y_def z_def gdefs)
  show ?thesis unfolding lab using fx fy fz by simp
qed

lemma gray_lab:
  "53.5768 \<le> lab_l (rgbToLab 128 128 128) \<and> lab_l (rgbToLab 128 128 128) \<le> 53.6000 \<and>
   - 0.1000 \<le> lab_a (rgbToLab 128 128 128) \<and> lab_a (rgbToLab 128 128 128) \<le> 0.1000 \<and>
   - 0.0400 \<le> lab_b (rgbToLab 128 128 128) \<and> lab_b (rgbToLab 128 128 128) \<le> 0.0400"
proof -
  have g128: "0.2158 \<le> rgbToXyz_applyGamma (128 / 255)" "rgbToXyz_applyGamma (128 / 255) \<le> 0.2159"
    by (rule gamma_bounds [where lo = "0.2158" and hi = "0.2159"]; simp add: power_divide)+
  note t = rgbToLab_bounds [OF g128 g128 g128, where fxl = "0.5998" and fxh = "0.6000"
      and fyl = "0.5998" and fyh = "0.6000" and fzl = "0.5998" and fzh = "0.6000"]
  show ?thesis using t by (simp add: power_divide)
qed

lemma white_lab:
  "99.9884 \<le> lab_l (rgbToLab 255 255 255) \<and> lab_l (rgbToLab 255 255 255) \<le> 100.0116 \<and>
   - 0.0500 \<le> lab_a (rgbToLab 255 255 255) \<and> lab_a (rgbToLab 255 255 255) \<le> 0.1000 \<and>
   - 0.0400 \<le> lab_b (rgbToLab 255 255 255) \<and> lab_b (rgbToLab 255 255 255) \<le> 0.0200"
proof -
  have g255: "1 \<le> rgbToXyz_applyGamma (255 / 255)" "rgbToXyz_applyGamma (255 / 255) \<le> 1"
    by (simp_all add: rgbToXyz_applyGamma_def)
  note t = rgbToLab_bounds [OF g255 g255 g255, where fxl = "1.0000" and fxh = "1.0001"
      and fyl = "0.9999" and fyh = "1.0001" and fzl = "1.0000" and fzh = "1.0001"]
  show ?thesis using t by (simp add: power_divide)
qed

lemma gold_lab:
  "83.9224 \<le> lab_l (rgbToLab 255 200 120) \<and> lab_l (rgbToLab 255 200 120) \<le> 83.9340 \<and>
   10.3500 \<le> lab_a (rgbToLab 255 200 120) \<and> lab_a (rgbToLab 255 200 120) \<le> 10.5000 \<and>
   47.1200 \<le> lab_b (rgbToLab 255 200 120) \<and> lab_b (rgbToLab 255 200 120) \<le> 47.1800"
proof -
  have g120: "0.1878 \<le> rgbToXyz_applyGamma (120 / 255)" "rgbToXyz_applyGamma (120 / 255) \<le> 0.1879"
    by (rule gamma_bounds [where lo = "0.1878" and hi = "0.1879"]; simp add: power_divide)+
  have g200: "0.5775 \<le> rgbToXyz_applyGamma (200 / 255)" "rgbToXyz_applyGamma (200 / 255) \<le> 0.5776"
    by (rule gamma_bounds [where lo = "0.5775" and hi = "0.5776"]; simp add: power_divide)+
  have g255: "1 \<le> rgbToXyz_applyGamma (255 / 255)" "rgbToXyz_applyGamma (255 / 255) \<le> 1"
    by (simp_all add: rgbToXyz_applyGamma_def)
  note t = rgbToLab_bounds [OF g255 g200 g120, where fxl = "0.8822" and fxh = "0.8824"
      and fyl = "0.8614" and fyh = "0.8615" and fzl = "0.6256" and fzh = "0.6258"]
  show ?thesis using t by (simp add: power_divide)
qed

lemma minRefDistance_tables:
  "minRefDistance c YELLOW_GOLD_LAB_REFS = Some (yellowDistance c)"
  "minRefDistance c ROSE_GOLD_LAB_REFS = Some (roseDistance c)"
  by (simp_all add: minRefDistance_def YELLOW_GOLD_LAB_REFS_def ROSE_GOLD_LAB_REFS_def
        yellowDistance_def roseDistance_def Let_def)

lemma classifyCluster_eq:
  "classifyCluster cl =
     (if yellowDistance (center cl) > 30 \<and> roseDistance (center cl) > 30
      then \<lparr> ctype = NonMetal, confidence = 0.9 \<rparr>
      else \<lparr> ctype = Metal (if yellowDistance (center cl) < roseDistance (center cl) then Yellow else Rose),
             confidence = 1 - min (yellowDistance (center cl)) (roseDistance (center cl))
                              / (yellowDistance (center cl) + roseDistance (center cl)) \<rparr>)"
  by (simp add: classifyCluster_def minRefDistance_tables Let_def)

lemma distances_nonneg: "0 \<le> yellowDistance c" "0 \<le> roseDistance c"
  by (simp_all add: yellowDistance_def roseDistance_def labDistance_nonneg)

lemma classify_metal:
  assumes "yellowDistance (center cl) \<le> 30 \<or> roseDistance (center cl) \<le> 30"
    and "yellowDistance (center cl) \<noteq> roseDistance (center cl)"
  shows "ctype (classifyCluster cl) =
           Metal (if yellowDistance (center cl) < roseDistance (center cl) then Yellow else Rose)"
    and "confidence (classifyCluster cl) > 0.5"
    and "isMetalCluster cl"
proof -
  let ?y = "yellowDistance (center cl)" and ?r = "roseDistance (center cl)"
  have nn: "0 \<le> ?y" "0 \<le> ?r" by (rule distances_nonneg)+
  have not_far: "(?y > 30 \<and> ?r > 30) = False" using assms(1) by auto
  show t: "ctype (classifyCluster cl) = Metal (if ?y < ?r then Yellow else Rose)"
    unfolding classifyCluster_eq not_far by simp
  have tot: "0 < ?y + ?r" using nn assms(2) by linarith
  have "2 * min ?y ?r < ?y + ?r" using assms(2) by (simp add: min_def)
  then have "min ?y ?r / (?y + ?r) < 1 / 2" using tot by (simp add: pos_divide_less_eq)
  then have "1 - min ?y ?r / (?y + ?r) > 0.5" by simp
  then show c: "confidence (classifyCluster cl) > 0.5"
    unfolding classifyCluster_eq not_far by simp
  show "isMetalCluster cl" unfolding isMetalCluster_def using t c by simp
qed

lemma classify_nonmetal:
  assumes "yellowDistance (center cl) > 30" and "roseDistance (center cl) > 30"
  shows "classifyCluster cl = \<lparr> ctype = NonMetal, confidence = 0.9 \<rparr>" and "\<not> isMetalCluster cl"
proof -
  have far: "(yellowDistance (center cl) > 30 \<and> roseDistance (center cl) > 30) = True"
    using assms by simp
  show "classifyCluster cl = \<lparr> ctype = NonMetal, confidence = 0.9 \<rparr>"
    unfolding classifyCluster_eq far by simp
  then show "\<not> isMetalCluster cl" by (simp add: isMetalCluster_def)
qed

lemma sq_diff_upper:
  fixes x t m :: real
  assumes "x - t \<le> m" and "t - x \<le> m"
  shows "(x - t)\<^sup>2 \<le> m * m"
proof -
  have "\<bar>x - t\<bar> \<le> m" using assms by linarith
  then have "(x - t)\<^sup>2 \<le> m\<^sup>2" using abs_le_square_iff [of "x - t" m] by simp
  then show ?thesis by (simp add: power2_eq_square)
qed

lemma sq_diff_lower:
  fixes x t m :: real
  assumes "0 \<le> m" and "m \<le> x - t \<or> m \<le> t - x"
  shows "m * m \<le> (x - t)\<^sup>2"
proof -
  have "\<bar>m\<bar> \<le> \<bar>x - t\<bar>" using assms by linarith
  then have "m\<^sup>2 \<le> (x - t)\<^sup>2" using abs_le_square_iff [of m "x - t"] by simp
  then show ?thesis by (simp add: power2_eq_square)
qed

lemma labDistance_near:
  assumes "(lab_l c - l)\<^sup>2 + (lab_a c - a)\<^sup>2 + (lab_b c - b)\<^sup>2 < k * k" and "0 \<le> k"
  shows "labDistance c (mkLab l a b) < k"
  unfolding labDistance_def mkLab_def using assms by (intro real_less_lsqrt) (simp_all add: power2_eq_square)

lemma isMetalCluster_center:
  "isMetalCluster \<lparr> center = c, points = ps \<rparr> = isMetalCluster \<lparr> center = c, points = [] \<rparr>"
  by (simp add: isMetalCluster_def classifyCluster_eq)

lemma classifyCluster_center:
  "classifyCluster \<lparr> center = c, points = ps \<rparr> = classifyCluster \<lparr> center = c, points = [] \<rparr>"
  by (simp add: classifyCluster_eq)

lemma labColorsOf_single:
  "labColorsOf [r, g, b, al] = [rgbToLab (byteNum r) (byteNum g) (byteNum b)]"
  by (simp add: labColorsOf_def)

lemma detectReflections_single:
  "detectReflections [r, g, b, al] 1 1 [255] =
     [highlightLevel (0.299 * byteNum r + 0.587 * byteNum g + 0.114 * byteNum b)]"
  by (simp add: detectReflections_def maskSet_def Let_def)

lemma metalClusters_single_metal:
  assumes "isMetalCluster \<lparr> center = lab, points = [] \<rparr>"
  shows "metalClusters [\<lparr> center = lab, points = [(lab, 0)] \<rparr>, \<lparr> center = lab, points = [] \<rparr>,
      \<lparr> center = lab, points = [] \<rparr>, \<lparr> center = lab, points = [] \<rparr>,
      \<lparr> center = lab, points = [] \<rparr>, \<lparr> center = lab, points = [] \<rparr>]
    = [\<lparr> center = lab, points = [(lab, 0)] \<rparr>, \<lparr> center = lab, points = [] \<rparr>,
      \<lparr> center = lab, points = [] \<rparr>, \<lparr> center = lab, points = [] \<rparr>,
      \<lparr> center = lab, points = [] \<rparr>, \<lparr> center = lab, points = [] \<rparr>]"
proof -
  have m: "isMetalCluster \<lparr> center = lab, points = [(lab, 0)] \<rparr>"
    using assms isMetalCluster_center [of lab "[(lab, 0)]"] by simp
  show ?thesis unfolding metalClusters_def using assms m by simp
qed

lemma metalClusters_single_nonmetal:
  assumes "\<not> isMetalCluster \<lparr> center = lab, points = [] \<rparr>"
  shows "metalClusters [\<lparr> center = lab, points = [(lab, 0)] \<rparr>, \<lparr> center = lab, points = [] \<rparr>,
      \<lparr> center = lab, points = [] \<rparr>, \<lparr> center = lab, points = [] \<rparr>,
      \<lparr> center = lab, points = [] \<rparr>, \<lparr> center = lab, points = [] \<rparr>] = []"
proof -
  have m: "\<not> isMetalCluster \<lparr> center = lab, points = [(lab, 0)] \<rparr>"
    using assms isMetalCluster_center [of lab "[(lab, 0)]"] by simp
  show ?thesis unfolding metalClusters_def using assms m by simp
qed

lemma detect_single_metal:
  assumes "isMetalCluster \<lparr> center = rgbToLab (byteNum r) (byteNum g) (byteNum b), points = [] \<rparr>"
  shows "detectMetalType \<lparr> data = [r, g, b, al], width = 1, height = 1 \<rparr> =
     Inr \<lparr> detectedColor =
             (case ctype (classifyCluster \<lparr> center = rgbToLab (byteNum r) (byteNum g) (byteNum b), points = [] \<rparr>) of
                Metal c \<Rightarrow> c | NonMetal \<Rightarrow> Rose),
           metalMask = [255],
           reflectionMap = [highlightLevel (0.299 * byteNum r + 0.587 * byteNum g + 0.114 * byteNum b)],
           labValues = [rgbToLab (byteNum r) (byteNum g) (byteNum b)] \<rparr>"
  unfolding detectMetalType_def Let_def ImageData.select_convs labColorsOf_single kMeans_single
    metalClusters_single_metal [OF assms]
  by (simp add: markMetal_def detectReflections_single [unfolded One_nat_def]
        classifyCluster_center [of _ "[(rgbToLab (byteNum r) (byteNum g) (byteNum b), 0)]"])

lemma detect_single_nonmetal:
  assumes "\<not> isMetalCluster \<lparr> center = rgbToLab (byteNum r) (byteNum g) (byteNum b), points = [] \<rparr>"
  shows "detectMetalType \<lparr> data = [r, g, b, al], width = 1, height = 1 \<rparr> = Inl NoMetalDetected"
  unfolding detectMetalType_def Let_def ImageData.select_convs labColorsOf_single kMeans_single
    metalClusters_single_nonmetal [OF assms]
  by simp

lemma labDistance_beyond:
  assumes "k * k < (lab_l c - l)\<^sup>2 + (lab_a c - a)\<^sup>2 + (lab_b c - b)\<^sup>2"
  shows "k < labDistance c (mkLab l a b)"
  unfolding labDistance_def mkLab_def using assms
  by (intro real_less_rsqrt) (simp add: power2_eq_square)

lemma labDistance_beyond_b:
  assumes "0 \<le> k" and "k < lab_b c - b \<or> k < b - lab_b c"
  shows "k < labDistance c (mkLab l a b)"
proof -
  obtain m where m: "k < m" "m \<le> lab_b c - b \<or> m \<le> b - lab_b c"
    using assms(2) by (metis order_refl)
  have "k * k < m * m" using assms(1) m(1) by (simp add: mult_strict_mono')
  also have "m * m \<le> (lab_b c - b)\<^sup>2" using sq_diff_lower [of m "lab_b c" b] assms(1) m by simp
  also have "\<dots> \<le> (lab_l c - l)\<^sup>2 + (lab_a c - a)\<^sup>2 + (lab_b c - b)\<^sup>2" by simp
  finally show ?thesis by (rule labDistance_beyond)
qed

lemma labDistance_beyond_l:
  assumes "0 \<le> k" and "k < lab_l c - l \<or> k < l - lab_l c"
  shows "k < labDistance c (mkLab l a b)"
proof -
  obtain m where m: "k < m" "m \<le> lab_l c - l \<or> m \<le> l - lab_l c"
    using assms(2) by (metis order_refl)
  have "k * k < m * m" using assms(1) m(1) by (simp add: mult_strict_mono')
  also have "m * m \<le> (lab_l c - l)\<^sup>2" using sq_diff_lower [of m "lab_l c" l] assms(1) m by simp
  also have "\<dots> \<le> (lab_l c - l)\<^sup>2 + (lab_a c - a)\<^sup>2 + (lab_b c - b)\<^sup>2" by simp
  finally show ?thesis by (rule labDistance_beyond)
qed

lemma gray_distances:
  "roseDistance (rgbToLab 128 128 128) < 30" "30 < yellowDistance (rgbToLab 128 128 128)"
proof -
  let ?c = "rgbToLab 128 128 128"
  note b = gray_lab [simplified]
  have "(lab_l ?c - 60)\<^sup>2 \<le> 6.5 * 6.5" using b by (intro sq_diff_upper) auto
  moreover have "(lab_a ?c - 16)\<^sup>2 \<le> 16.2 * 16.2" using b by (intro sq_diff_upper) auto
  moreover have "(lab_b ?c - 18)\<^sup>2 \<le> 18.1 * 18.1" using b by (intro sq_diff_upper) auto
  ultimately have "(lab_l ?c - 60)\<^sup>2 + (lab_a ?c - 16)\<^sup>2 + (lab_b ?c - 18)\<^sup>2 < 30 * 30"
    by simp
  then have "labDistance ?c (mkLab 60 16 18) < 30" by (rule labDistance_near) simp
  then show "roseDistance ?c < 30" by (simp add: roseDistance_def min_less_iff_disj)
  have "30 < labDistance ?c (mkLab 83 10 45)" using b by (intro labDistance_beyond_b) auto
  moreover have "30 < labDistance ?c (mkLab 76 7 40)" using b by (intro labDistance_beyond_b) auto
  moreover have "30 < labDistance ?c (mkLab 70 6 35)" using b by (intro labDistance_beyond_b) auto
  ultimately show "30 < yellowDistance ?c" by (simp add: yellowDistance_def)
qed

lemma white_distances:
  "30 < roseDistance (rgbToLab 255 255 255)" "30 < yellowDistance (rgbToLab 255 255 255)"
proof -
  let ?c = "rgbToLab 255 255 255"
  note b = white_lab [simplified]
  have "30 < labDistance ?c (mkLab 83 10 45)" using b by (intro labDistance_beyond_b) auto
  moreover have "30 < labDistance ?c (mkLab 76 7 40)" using b by (intro labDistance_beyond_b) auto
  moreover have "30 < labDistance ?c (mkLab 70 6 35)" using b by (intro labDistance_beyond_b) auto
  ultimately show "30 < yellowDistance ?c" by (simp add: yellowDistance_def)
  have "(24.9 * 24.9 :: real) \<le> (lab_l ?c - 75)\<^sup>2" using b by (intro sq_diff_lower) auto
  moreover have "(19.8 * 19.8 :: real) \<le> (lab_a ?c - 20)\<^sup>2" using b by (intro sq_diff_lower) auto
  ultimately have "30 * 30 < (lab_l ?c - 75)\<^sup>2 + (lab_a ?c - 20)\<^sup>2"
    by simp
  then have "30 * 30 < (lab_l ?c - 75)\<^sup>2 + (lab_a ?c - 20)\<^sup>2 + (lab_b ?c - 25)\<^sup>2"
    using zero_le_power2 [of "lab_b ?c - 25"] by linarith
  then have "30 < labDistance ?c (mkLab 75 20 25)" by (rule labDistance_beyond)
  moreover have "30 < labDistance ?c (mkLab 68 18 20)" using b by (intro labDistance_beyond_l) auto
  moreover have "30 < labDistance ?c (mkLab 60 16 18)" using b by (intro labDistance_beyond_l) auto
  ultimately show "30 < roseDistance ?c" by (simp add: roseDistance_def)
qed

lemma gold_distances:
  "yellowDistance (rgbToLab 255 200 120) < 3" "3 < roseDistance (rgbToLab 255 200 120)"
proof -
  let ?c = "rgbToLab 255 200 120"
  note b = gold_lab [simplified]
  have "(lab_l ?c - 83)\<^sup>2 \<le> 1 * 1" using b by (intro sq_diff_upper) auto
  moreover have "(lab_a ?c - 10)\<^sup>2 \<le> 0.5 * 0.5" using b by (intro sq_diff_upper) auto
  moreover have "(lab_b ?c - 45)\<^sup>2 \<le> 2.2 * 2.2" using b by (intro sq_diff_upper) auto
  ultimately have "(lab_l ?c - 83)\<^sup>2 + (lab_a ?c - 10)\<^sup>2 + (lab_b ?c - 45)\<^sup>2 < 3 * 3"
    by simp
  then have "labDistance ?c (mkLab 83 10 45) < 3" by (rule labDistance_near) simp
  then show "yellowDistance ?c < 3" by (simp add: yellowDistance_def min_less_iff_disj)
  have "3 < labDistance ?c (mkLab 75 20 25)" using b by (intro labDistance_beyond_b) auto
  moreover have "3 < labDistance ?c (mkLab 68 18 20)" using b by (intro labDistance_beyond_b) auto
  moreover have "3 < labDistance ?c (mkLab 60 16 18)" using b by (intro labDistance_beyond_b) auto
  ultimately show "3 < roseDistance ?c" by (simp add: roseDistance_def)
qed

lemma byteNum_numerals:
  "byteNum 128 = 128" "byteNum 255 = 255" "byteNum 200 = 200" "byteNum 120 = 120"
  by (simp_all add: byteNum_def)

lemma detect_gray:
  "detectMetalType grayPixel =
     Inr \<lparr> detectedColor = Rose, metalMask = [255], reflectionMap = [0],
           labValues = [rgbToLab 128 128 128] \<rparr>"
proof -
  let ?cl = "\<lparr> center = rgbToLab 128 128 128, points = [] \<rparr>"
  have d: "roseDistance (center ?cl) < 30" "30 < yellowDistance (center ?cl)"
    using gray_distances by simp_all
  have m: "isMetalCluster ?cl" and t: "ctype (classifyCluster ?cl) = Metal Rose"
    using classify_metal [of ?cl] d by simp_all
  have h: "highlightLevel (0.299 * 128 + 0.587 * 128 + 0.114 * 128) = 0"
    by (simp add: highlightLevel_def)
  show ?thesis
    unfolding grayPixel_def
    using detect_single_metal [of 128 128 128 255] m t h by (simp add: byteNum_numerals)
qed

lemma detect_white: "detectMetalType whitePixel = Inl NoMetalDetected"
proof -
  let ?cl = "\<lparr> center = rgbToLab 255 255 255, points = [] \<rparr>"
  have "\<not> isMetalCluster ?cl"
    using classify_nonmetal(2) [of ?cl] white_distances by simp
  then show ?thesis
    unfolding whitePixel_def
    using detect_single_nonmetal [of 255 255 255 255] by (simp add: byteNum_numerals)
qed

lemma detect_gold:
  "detectMetalType goldPixel =
     Inr \<lparr> detectedColor = Yellow, metalMask = [255], reflectionMap = [255],
           labValues = [rgbToLab 255 200 120] \<rparr>"
proof -
  let ?cl = "\<lparr> center = rgbToLab 255 200 120, points = [] \<rparr>"
  have d: "yellowDistance (center ?cl) < 3" "3 < roseDistance (center ?cl)"
    using gold_distances by simp_all
  have m: "isMetalCluster ?cl" and t: "ctype (classifyCluster ?cl) = Metal Yellow"
    using classify_metal [of ?cl] d by simp_all
  have h: "highlightLevel (0.299 * 255 + 0.587 * 200 + 0.114 * 120) = 255"
    by (simp add: highlightLevel_def)
  show ?thesis
    unfolding goldPixel_def
    using detect_single_metal [of 255 200 120 255] m t h by (simp add: byteNum_numerals)
qed

lemma metalClusters_empty_iff:
  "metalClusters cs = [] \<longleftrightarrow> (\<forall>c \<in> set cs. \<not> isMetalCluster c)"
proof -
  have "metalClusters cs = [] \<longleftrightarrow> filter isMetalCluster cs = []"
    unfolding metalClusters_def by (metis length_0_conv length_sort)
  then show ?thesis by (simp add: filter_empty_conv)
qed

text \<open>
  C5, as stated, fails in its last part: the one-pixel mid-gray image is not rejected. Its
  Lab colour lies within distance 30 of the darkest rose reference \<open>(60, 16, 18)\<close> and
  farther from every yellow reference, so its cluster is classified rose with confidence
  above 0.5 and the detection succeeds.
\<close>

theorem detectMetalType_mid_gray_counterexample:
  "data grayPixel = [128, 128, 128, 255] \<and> width grayPixel = 1 \<and> height grayPixel = 1 \<and>
   detectMetalType grayPixel =
     Inr \<lparr> detectedColor = Rose, metalMask = [255], reflectionMap = [0],
           labValues = [rgbToLab 128 128 128] \<rparr> \<and>
   detectMetalType grayPixel \<noteq> Inl NoMetalDetected"
  by (simp add: detect_gray) (simp add: grayPixel_def)

text \<open>
  C5, amended. On a non-empty image \<open>detectMetalType\<close> fails with \<open>NoMetalDetected\<close>
  exactly when no cluster of the k-means result is classified as a metal type with
  confidence above 0.5, and a failure carries no detection result.
\<close>

theorem detectMetalType_fails_iff_no_metal_cluster:
  "(detectMetalType img = Inl NoMetalDetected \<longleftrightarrow>
      width img \<noteq> 0 \<and> height img \<noteq> 0 \<and>
      (\<forall>c \<in> set (kMeansLabClustering (labColorsOf (data img)) 6 10).
          \<not> (ctype (classifyCluster c) \<noteq> NonMetal \<and> confidence (classifyCluster c) > 0.5))) \<and>
   (detectMetalType img = Inl NoMetalDetected \<longrightarrow> (\<forall>res. detectMetalType img \<noteq> Inr res))"
proof -
  let ?cs = "kMeansLabClustering (labColorsOf (data img)) 6 10"
  have e: "metalClusters ?cs = [] \<longleftrightarrow>
      (\<forall>c \<in> set ?cs. \<not> (ctype (classifyCluster c) \<noteq> NonMetal \<and> confidence (classifyCluster c) > 0.5))"
    unfolding metalClusters_empty_iff isMetalCluster_def ..
  have "detectMetalType img = Inl NoMetalDetected \<longleftrightarrow>
      width img \<noteq> 0 \<and> height img \<noteq> 0 \<and> metalClusters ?cs = []"
    by (auto simp: detectMetalType_def Let_def split: list.splits)
  then have main: "detectMetalType img = Inl NoMetalDetected \<longleftrightarrow>
      width img \<noteq> 0 \<and> height img \<noteq> 0 \<and>
      (\<forall>c \<in> set ?cs. \<not> (ctype (classifyCluster c) \<noteq> NonMetal \<and> confidence (classifyCluster c) > 0.5))"
    unfolding e .
  have none: "detectMetalType img = Inl NoMetalDetected \<longrightarrow> (\<forall>res. detectMetalType img \<noteq> Inr res)"
    by simp
  show ?thesis using main none by (rule conjI)
qed

theorem detectMetalType_fails_iff_no_metal_cluster_witness:
  "detectMetalType whitePixel = Inl NoMetalDetected \<and>
   width whitePixel \<noteq> 0 \<and> height whitePixel \<noteq> 0 \<and>
   \<not> (ctype (classifyCluster \<lparr> center = rgbToLab 255 255 255, points = [(rgbToLab 255 255 255, 0)] \<rparr>)
          \<noteq> NonMetal \<and>
        confidence (classifyCluster \<lparr> center = rgbToLab 255 255 255, points = [(rgbToLab 255 255 255, 0)] \<rparr>)
          > 0.5) \<and>
   (\<forall>res. detectMetalType whitePixel \<noteq> Inr res)"
proof -
  let ?c = "\<lparr> center = rgbToLab 255 255 255, points = [(rgbToLab 255 255 255, 0)] \<rparr>"
  note t = detectMetalType_fails_iff_no_metal_cluster [of whitePixel]
  have cs: "kMeansLabClustering (labColorsOf (data whitePixel)) 6 10 =
      [?c, \<lparr> center = rgbToLab 255 255 255, points = [] \<rparr>,
       \<lparr> center = rgbToLab 255 255 255, points = [] \<rparr>, \<lparr> center = rgbToLab 255 255 255, points = [] \<rparr>,
       \<lparr> center = rgbToLab 255 255 255, points = [] \<rparr>, \<lparr> center = rgbToLab 255 255 255, points = [] \<rparr>]"
    unfolding whitePixel_def ImageData.select_convs labColorsOf_single byteNum_numerals kMeans_single ..
  from t detect_white have
    all: "\<forall>c \<in> set (kMeansLabClustering (labColorsOf (data whitePixel)) 6 10).
            \<not> (ctype (classifyCluster c) \<noteq> NonMetal \<and> confidence (classifyCluster c) > 0.5)"
    and dims: "width whitePixel \<noteq> 0" "height whitePixel \<noteq> 0"
    and none: "\<forall>res. detectMetalType whitePixel \<noteq> Inr res"
    by blast+
  have "?c \<in> set (kMeansLabClustering (labColorsOf (data whitePixel)) 6 10)"
    unfolding cs by simp
  with all have "\<not> (ctype (classifyCluster ?c) \<noteq> NonMetal \<and> confidence (classifyCluster ?c) > 0.5)"
    by blast
  then show ?thesis using detect_white dims none by blast
qed

lemma detectReflections_invariant:
  "length (detectReflections dat w h msk) = w * h \<and>
   (\<forall>p < w * h. detectReflections dat w h msk ! p > 0 \<longrightarrow> maskSet msk p)"
proof -
  let ?P = "\<lambda>s :: byte list. length s = w * h \<and> (\<forall>p < w * h. s ! p > 0 \<longrightarrow> maskSet msk p)"
  have step: "?P (if maskSet msk q then t[q := v] else t)" if "?P t" for t q v
  proof (cases "maskSet msk q")
    case False
    then show ?thesis using that by simp
  next
    case True
    have "maskSet msk p" if "p < w * h" "0 < t[q := v] ! p" for p
    proof (cases "p = q")
      case True
      then show ?thesis using \<open>maskSet msk q\<close> by simp
    next
      case False
      then have "t[q := v] ! p = t ! p" by simp
      then show ?thesis using that \<open>?P t\<close> by simp
    qed
    then show ?thesis using True that by simp
  qed
  have init: "?P (replicate (w * h) 0)" by simp
  show ?thesis
    unfolding detectReflections_def Let_def
    apply (rule fold_invariant [where P = ?P])
     apply (rule init)
    apply (rule fold_invariant [where P = ?P])
     apply assumption
    apply (rule step)
    apply assumption
    done
qed

lemma markMetal_length: "length (markMetal n cs) = n"
proof -
  have "length (fold (\<lambda>point m. m[snd point := v]) ps m) = length m"
    for ps :: "(LabColor \<times> nat) list" and m :: "byte list" and v
    by (induction ps arbitrary: m) simp_all
  then have "length (fold (\<lambda>cluster m. fold (\<lambda>point m. m[snd point := 255]) (points cluster) m) cs m)
       = length m" for m :: "byte list"
    by (induction cs arbitrary: m) simp_all
  then show ?thesis by (simp add: markMetal_def)
qed

text \<open>
  C6. In every result of the detection stage, the reflection map and the metal mask have
  one entry per pixel, and a positive reflection strength occurs only where the mask is set.
\<close>

theorem reflection_within_metal_mask:
  assumes "detectMetalType img = Inr res"
  shows "length (reflectionMap res) = width img * height img \<and>
         length (metalMask res) = width img * height img \<and>
         (\<forall>i < width img * height img. reflectionMap res ! i > 0 \<longrightarrow> metalMask res ! i > 0)"
proof -
  let ?cs = "metalClusters (kMeansLabClustering (labColorsOf (data img)) 6 10)"
  let ?n = "width img * height img"
  from assms have m: "metalMask res = markMetal ?n ?cs"
    and r: "reflectionMap res = detectReflections (data img) (width img) (height img) (markMetal ?n ?cs)"
    by (auto simp: detectMetalType_def Let_def split: list.splits if_splits)
  note inv = detectReflections_invariant [of "data img" "width img" "height img" "markMetal ?n ?cs"]
  have "metalMask res ! i > 0" if "i < ?n" "reflectionMap res ! i > 0" for i
    using inv that unfolding r m by (auto simp: maskSet_def)
  then show ?thesis using inv unfolding r m by (simp add: markMetal_length)
qed

theorem reflection_within_metal_mask_witness:
  "detectMetalType goldPixel =
     Inr \<lparr> detectedColor = Yellow, metalMask = [255], reflectionMap = [255],
           labValues = [rgbToLab 255 200 120] \<rparr> \<and>
   (0::nat) < width goldPixel * height goldPixel \<and>
   (255::byte) > 0 \<and>
   [255 :: byte] ! 0 > 0"
proof -
  note t = reflection_within_metal_mask [OF detect_gold]
  have n: "(0::nat) < width goldPixel * height goldPixel" by (simp add: goldPixel_def)
  from t n have "[255 :: byte] ! 0 > 0" by simp
  then show ?thesis using detect_gold n by simp
qed






































end
